theory Spec2Isabelle
  imports Main
begin

section \<open>Data model (src/types/workflow.ts)\<close>

text \<open>
  Step numbers are the integers that \<^verbatim>\<open>parseInt\<close> yields in the routes; they are modelled
  as \<open>int\<close>. Strings are \<open>string\<close>; a nullable field is an \<open>option\<close> (\<open>None\<close> is
  \<^verbatim>\<open>null\<close>).
\<close>

datatype StepStatus = S_pending | S_in_progress | S_completed | S_error | S_skipped

datatype WorkflowStatus = W_created | W_in_progress | W_paused | W_completed | W_error

text \<open>The interface \<^verbatim>\<open>StepStatuses\<close> has exactly the keys '1' .. '7'.\<close>

record StepStatuses =
  k1 :: StepStatus
  k2 :: StepStatus
  k3 :: StepStatus
  k4 :: StepStatus
  k5 :: StepStatus
  k6 :: StepStatus
  k7 :: StepStatus

text \<open>
  \<^verbatim>\<open>stepStatuses[String(k) as keyof StepStatuses]\<close>: reading a key that the object does
  not have yields \<^verbatim>\<open>undefined\<close>, which is \<open>None\<close> here.
\<close>

definition readStatus :: "StepStatuses \<Rightarrow> int \<Rightarrow> StepStatus option" where
  "readStatus ss k =
     (if k = 1 then Some (k1 ss) else if k = 2 then Some (k2 ss)
      else if k = 3 then Some (k3 ss) else if k = 4 then Some (k4 ss)
      else if k = 5 then Some (k5 ss) else if k = 6 then Some (k6 ss)
      else if k = 7 then Some (k7 ss) else None)"

text \<open>
  \<^verbatim>\<open>newStepStatuses[String(k) as keyof StepStatuses] = v\<close>. Every call site writes a
  key between 1 and 7 (the route validates the step, the loop of \<^verbatim>\<open>startWorkflow\<close> runs
  from a checked lower bound up to 7). A write to any other key would add a property
  outside the interface and leave the seven declared ones as they are; the record keeps
  the seven declared ones.
\<close>

definition writeStatus :: "StepStatuses \<Rightarrow> int \<Rightarrow> StepStatus \<Rightarrow> StepStatuses" where
  "writeStatus ss k v =
     (if k = 1 then ss\<lparr>k1 := v\<rparr> else if k = 2 then ss\<lparr>k2 := v\<rparr>
      else if k = 3 then ss\<lparr>k3 := v\<rparr> else if k = 4 then ss\<lparr>k4 := v\<rparr>
      else if k = 5 then ss\<lparr>k5 := v\<rparr> else if k = 6 then ss\<lparr>k6 := v\<rparr>
      else if k = 7 then ss\<lparr>k7 := v\<rparr> else ss)"

text \<open>\<^verbatim>\<open>Object.values(workflow.stepStatuses)\<close>\<close>

definition stepValues :: "StepStatuses \<Rightarrow> StepStatus list" where
  "stepValues ss = [k1 ss, k2 ss, k3 ss, k4 ss, k5 ss, k6 ss, k7 ss]"

record Capture =
  headless :: "bool option"
  width :: "int option"
  height :: "int option"

record WorkflowConfig =
  provider :: "string option"
  model :: "string option"
  language :: "string option"
  maxKeyFrames :: "int option"
  capture :: "Capture option"

text \<open>The empty object \<^verbatim>\<open>{}\<close> as a configuration.\<close>

definition emptyConfig :: WorkflowConfig where
  "emptyConfig = \<lparr>provider = None, model = None, language = None, maxKeyFrames = None,
     capture = None\<rparr>"

text \<open>
  The payload a step produces. The route handles it as \<^verbatim>\<open>unknown\<close> and stores it in
  the slot of the step, so one type of payloads serves the seven slots.
\<close>

datatype StepOutput = Payload string

record Workflow =
  wf_id :: string
  videoSource :: string
  videoPath :: "string option"
  videoName :: "string option"
  videoId :: "string option"
  status :: WorkflowStatus
  currentStep :: int
  errorMessage :: "string option"
  stepStatuses :: StepStatuses
  step1Output :: "StepOutput option"
  step2Output :: "StepOutput option"
  step3Output :: "StepOutput option"
  step4Output :: "StepOutput option"
  step5Output :: "StepOutput option"
  step6Output :: "StepOutput option"
  step7Output :: "StepOutput option"
  config :: WorkflowConfig
  enhancePromptId :: "string option"
  blogPromptId :: "string option"
  socialPromptId :: "string option"
  createdAt :: string
  updatedAt :: string
  startedAt :: "string option"
  completedAt :: "string option"

text \<open>The \<^verbatim>\<open>outputMap\<close> of \<^verbatim>\<open>getStepStatus\<close>: the output slot of a step number.\<close>

definition outputMap :: "Workflow \<Rightarrow> int \<Rightarrow> StepOutput option" where
  "outputMap w k =
     (if k = 1 then step1Output w else if k = 2 then step2Output w
      else if k = 3 then step3Output w else if k = 4 then step4Output w
      else if k = 5 then step5Output w else if k = 6 then step6Output w
      else if k = 7 then step7Output w else None)"

text \<open>
  A message of the progress log. The two template literals of the route,
  \<^verbatim>\<open>`Starting step ${step}`\<close> and \<^verbatim>\<open>`Step ${step} completed`\<close>, are kept with their
  step number instead of being rendered into characters.
\<close>

datatype LogMessage = Starting int | StepCompleted int | Text string

text \<open>
  A row of \<^verbatim>\<open>workflow_logs\<close> as \<^verbatim>\<open>logWorkflowProgress\<close> inserts it; the database
  fills in \<^verbatim>\<open>id\<close> and \<^verbatim>\<open>created_at\<close>.
\<close>

record WorkflowLog =
  log_workflowId :: string
  log_step :: int
  log_status :: string
  log_message :: LogMessage
  log_metadata :: "string option"

record StepDefinition =
  step :: int
  name :: string
  description :: string
  prerequisites :: "int list"

definition STEP_DEFINITIONS :: "StepDefinition list" where
  "STEP_DEFINITIONS =
    [\<lparr>step = 1, name = ''Download Video'',
       description = ''Download video from YouTube or URL'', prerequisites = []\<rparr>,
     \<lparr>step = 2, name = ''Extract & Transcribe'',
       description = ''Extract audio and transcribe via Whisper'', prerequisites = [1]\<rparr>,
     \<lparr>step = 3, name = ''Enhance Transcript'',
       description = ''AI-enhance transcript and identify key frames'', prerequisites = [2]\<rparr>,
     \<lparr>step = 4, name = ''Capture Screenshots'',
       description = ''Capture screenshots at key timestamps'', prerequisites = [3]\<rparr>,
     \<lparr>step = 5, name = ''Save Transcript'',
       description = ''Export transcript as markdown'', prerequisites = [3]\<rparr>,
     \<lparr>step = 6, name = ''Generate Blog'',
       description = ''AI-generate blog post with screenshots'', prerequisites = [3, 4]\<rparr>,
     \<lparr>step = 7, name = ''Generate Social'',
       description = ''AI-generate social media posts'', prerequisites = [3]\<rparr>]"

definition getStepDefinition :: "int \<Rightarrow> StepDefinition option" where
  "getStepDefinition s = find (\<lambda>d. step d = s) STEP_DEFINITIONS"

record PrereqCheck =
  canExecute :: bool
  missingPrerequisites :: "int list"

definition canExecuteStep :: "Workflow \<Rightarrow> int \<Rightarrow> PrereqCheck" where
  "canExecuteStep workflow s =
     (case find (\<lambda>d. step d = s) STEP_DEFINITIONS of
        None \<Rightarrow> \<lparr>canExecute = False, missingPrerequisites = []\<rparr>
      | Some definition \<Rightarrow>
          (let missing = filter
                 (\<lambda>prereq. readStatus (stepStatuses workflow) prereq \<noteq> Some S_completed)
                 (prerequisites definition)
           in \<lparr>canExecute = (length missing = 0), missingPrerequisites = missing\<rparr>))"


section \<open>The store and its operations (services/workflow)\<close>

text \<open>
  The two tables the engine uses. Reads and writes of the store succeed unless the
  addressed row is absent (and an insert unless the identifier is taken); an insert into
  the log always succeeds. The clock is a parameter: each operation receives the
  timestamp \<open>now\<close> that \<^verbatim>\<open>new Date().toISOString()\<close> yields while it runs.
\<close>

record Store =
  workflows :: "Workflow list"
  workflow_logs :: "WorkflowLog list"

definition getWorkflow :: "Store \<Rightarrow> string \<Rightarrow> Workflow option" where
  "getWorkflow db i = find (\<lambda>w. wf_id w = i) (workflows db)"

text \<open>
  The argument \<^verbatim>\<open>updates\<close> of \<^verbatim>\<open>updateWorkflow\<close>: every field is optional
  (\<open>None\<close> is \<^verbatim>\<open>undefined\<close>); \<^verbatim>\<open>errorMessage\<close> may also be given as \<^verbatim>\<open>null\<close>.
\<close>

record Updates =
  u_videoPath :: "string option"
  u_videoName :: "string option"
  u_videoId :: "string option"
  u_status :: "WorkflowStatus option"
  u_currentStep :: "int option"
  u_errorMessage :: "string option option"
  u_stepStatuses :: "StepStatuses option"
  u_step1Output :: "StepOutput option"
  u_step2Output :: "StepOutput option"
  u_step3Output :: "StepOutput option"
  u_step4Output :: "StepOutput option"
  u_step5Output :: "StepOutput option"
  u_step6Output :: "StepOutput option"
  u_step7Output :: "StepOutput option"
  u_config :: "WorkflowConfig option"
  u_startedAt :: "string option"
  u_completedAt :: "string option"

definition noUpdates :: Updates where
  "noUpdates = \<lparr>u_videoPath = None, u_videoName = None, u_videoId = None, u_status = None,
     u_currentStep = None, u_errorMessage = None, u_stepStatuses = None,
     u_step1Output = None, u_step2Output = None, u_step3Output = None,
     u_step4Output = None, u_step5Output = None, u_step6Output = None,
     u_step7Output = None, u_config = None, u_startedAt = None, u_completedAt = None\<rparr>"

text \<open>\<^verbatim>\<open>if (updates.f !== undefined) updateData.f = updates.f\<close>, for a nullable column.\<close>

definition overwrite :: "'a option \<Rightarrow> 'a option \<Rightarrow> 'a option" where
  "overwrite new old = (case new of None \<Rightarrow> old | Some v \<Rightarrow> Some v)"

text \<open>The row after the update: \<^verbatim>\<open>updated_at\<close> and every field that is given.\<close>

definition applyUpdates :: "Updates \<Rightarrow> string \<Rightarrow> Workflow \<Rightarrow> Workflow" where
  "applyUpdates u now w = w\<lparr>
     updatedAt := now,
     videoPath := overwrite (u_videoPath u) (videoPath w),
     videoName := overwrite (u_videoName u) (videoName w),
     videoId := overwrite (u_videoId u) (videoId w),
     status := (case u_status u of None \<Rightarrow> status w | Some v \<Rightarrow> v),
     currentStep := (case u_currentStep u of None \<Rightarrow> currentStep w | Some v \<Rightarrow> v),
     errorMessage := (case u_errorMessage u of None \<Rightarrow> errorMessage w | Some v \<Rightarrow> v),
     stepStatuses := (case u_stepStatuses u of None \<Rightarrow> stepStatuses w | Some v \<Rightarrow> v),
     step1Output := overwrite (u_step1Output u) (step1Output w),
     step2Output := overwrite (u_step2Output u) (step2Output w),
     step3Output := overwrite (u_step3Output u) (step3Output w),
     step4Output := overwrite (u_step4Output u) (step4Output w),
     step5Output := overwrite (u_step5Output u) (step5Output w),
     step6Output := overwrite (u_step6Output u) (step6Output w),
     step7Output := overwrite (u_step7Output u) (step7Output w),
     config := (case u_config u of None \<Rightarrow> config w | Some v \<Rightarrow> v),
     startedAt := overwrite (u_startedAt u) (startedAt w),
     completedAt := overwrite (u_completedAt u) (completedAt w)\<rparr>"

text \<open>
  \<^verbatim>\<open>updateWorkflow\<close>: \<^verbatim>\<open>.update(updateData).eq('id', id).select().single()\<close>. With no
  row of that identifier \<^verbatim>\<open>single()\<close> reports an error and the function throws
  (\<open>Inl\<close>, with the message).
\<close>

definition updateWorkflow ::
  "Store \<Rightarrow> string \<Rightarrow> Updates \<Rightarrow> string \<Rightarrow> string + Store \<times> Workflow" where
  "updateWorkflow db i u now =
     (case getWorkflow db i of
        None \<Rightarrow> Inl ''Failed to update workflow''
      | Some w \<Rightarrow>
          Inr (db\<lparr>workflows :=
                    map (\<lambda>r. if wf_id r = i then applyUpdates u now r else r) (workflows db)\<rparr>,
               applyUpdates u now w))"

definition updateStepStatus ::
  "Store \<Rightarrow> string \<Rightarrow> int \<Rightarrow> StepStatus \<Rightarrow> string \<Rightarrow> string + Store \<times> Workflow" where
  "updateStepStatus db i s st now =
     (case getWorkflow db i of
        None \<Rightarrow> Inl ''Workflow not found''
      | Some workflow \<Rightarrow>
          updateWorkflow db i
            (noUpdates\<lparr>
               u_stepStatuses := Some (writeStatus (stepStatuses workflow) s st),
               u_currentStep := Some (if st = S_in_progress then s else currentStep workflow)\<rparr>)
            now)"

definition logWorkflowProgress ::
  "Store \<Rightarrow> string \<Rightarrow> int \<Rightarrow> string \<Rightarrow> LogMessage \<Rightarrow> Store" where
  "logWorkflowProgress db workflowId s st message =
     db\<lparr>workflow_logs := workflow_logs db @
          [\<lparr>log_workflowId = workflowId, log_step = s, log_status = st,
            log_message = message, log_metadata = None\<rparr>]\<rparr>"

text \<open>
  \<^verbatim>\<open>checkStepPrerequisites\<close> adds the display name of the step to the result of
  \<^verbatim>\<open>canExecuteStep\<close>; the route reads the two fields of \<^verbatim>\<open>canExecuteStep\<close> only.
\<close>

definition checkStepPrerequisites :: "Workflow \<Rightarrow> int \<Rightarrow> PrereqCheck" where
  "checkStepPrerequisites workflow s = canExecuteStep workflow s"

text \<open>JavaScript's \<^verbatim>\<open>!x\<close> on a nullable string: \<^verbatim>\<open>null\<close> and the empty string.\<close>

definition falsy :: "string option \<Rightarrow> bool" where
  "falsy x = (x = None \<or> x = Some [])"

text \<open>The loop \<^verbatim>\<open>for (let i = fromStep; i <= 7; i++) newStepStatuses[String(i)] = 'pending'\<close>.\<close>

function resetFrom :: "StepStatuses \<Rightarrow> int \<Rightarrow> StepStatuses" where
  "resetFrom ss i = (if i \<le> 7 then resetFrom (writeStatus ss i S_pending) (i + 1) else ss)"
  by pat_completeness auto
termination
  by (relation "measure (\<lambda>(ss, i). nat (8 - i))") auto

definition startWorkflow ::
  "Store \<Rightarrow> string \<Rightarrow> int option \<Rightarrow> string \<Rightarrow> string + Store \<times> Workflow" where
  "startWorkflow db i fromStep now =
     (case getWorkflow db i of
        None \<Rightarrow> Inl ''Workflow not found''
      | Some workflow \<Rightarrow>
          (let updates0 = noUpdates\<lparr>u_status := Some W_in_progress, u_errorMessage := Some None\<rparr>;
               updates1 = (if falsy (startedAt workflow)
                           then updates0\<lparr>u_startedAt := Some now\<rparr> else updates0);
               updates2 = (case fromStep of
                             None \<Rightarrow> updates1
                           | Some k \<Rightarrow>
                               if k \<ge> 1 \<and> k \<le> 7
                               then updates1\<lparr>
                                      u_stepStatuses := Some (resetFrom (stepStatuses workflow) k),
                                      u_currentStep := Some k\<rparr>
                               else updates1)
           in updateWorkflow db i updates2 now))"

definition pauseWorkflow :: "Store \<Rightarrow> string \<Rightarrow> string \<Rightarrow> string + Store \<times> Workflow" where
  "pauseWorkflow db i now =
     (case getWorkflow db i of
        None \<Rightarrow> Inl ''Workflow not found''
      | Some workflow \<Rightarrow> updateWorkflow db i (noUpdates\<lparr>u_status := Some W_paused\<rparr>) now)"

definition completeWorkflow :: "Store \<Rightarrow> string \<Rightarrow> string \<Rightarrow> string + Store \<times> Workflow" where
  "completeWorkflow db i now =
     updateWorkflow db i (noUpdates\<lparr>u_status := Some W_completed, u_completedAt := Some now\<rparr>) now"

definition failWorkflow ::
  "Store \<Rightarrow> string \<Rightarrow> string \<Rightarrow> string \<Rightarrow> string + Store \<times> Workflow" where
  "failWorkflow db i message now =
     updateWorkflow db i
       (noUpdates\<lparr>u_status := Some W_error, u_errorMessage := Some (Some message)\<rparr>) now"

text \<open>The display name \<^verbatim>\<open>definition?.name || `Step ${step}`\<close>, the fallback kept unrendered.\<close>

datatype StepLabel = Named string | StepNo int

record StepDetail =
  d_step :: int
  d_name :: StepLabel
  d_status :: "StepStatus option"
  d_output :: "StepOutput option"
  d_canExecute :: bool
  d_missingPrerequisites :: "int list"

definition getStepStatus :: "Workflow \<Rightarrow> int \<Rightarrow> StepDetail" where
  "getStepStatus workflow s =
     (let prereqCheck = canExecuteStep workflow s
      in \<lparr>d_step = s,
          d_name = (case getStepDefinition s of
                      None \<Rightarrow> StepNo s
                    | Some d \<Rightarrow> if name d = [] then StepNo s else Named (name d)),
          d_status = readStatus (stepStatuses workflow) s,
          d_output = outputMap workflow s,
          d_canExecute = canExecute prereqCheck,
          d_missingPrerequisites = missingPrerequisites prereqCheck\<rparr>)"


section \<open>Creation\<close>

text \<open>
  \<^verbatim>\<open>String.prototype.trim\<close> on the characters of a \<open>string\<close>: the ASCII white space
  (tab, line feed, vertical tab, form feed, carriage return, space) is removed from both
  ends.
\<close>

definition isSpace :: "char \<Rightarrow> bool" where
  "isSpace c = (c \<in> set [CHR 0x09, CHR 0x0A, CHR 0x0B, CHR 0x0C, CHR 0x0D, CHR '' ''])"

definition trim :: "string \<Rightarrow> string" where
  "trim s = rev (dropWhile isSpace (rev (dropWhile isSpace s)))"

record CreateOptions =
  o_videoSource :: string
  o_config :: "WorkflowConfig option"
  o_enhancePromptId :: "string option"
  o_blogPromptId :: "string option"
  o_socialPromptId :: "string option"

text \<open>\<^verbatim>\<open>x || null\<close> on an optional string: absent and empty both give \<^verbatim>\<open>null\<close>.\<close>

definition orNull :: "string option \<Rightarrow> string option" where
  "orNull x = (if falsy x then None else x)"

text \<open>
  Modelled from the spec: the column defaults of the table \<^verbatim>\<open>workflows\<close>, whose schema
  is not part of the sources. The spec gives them as: a workflow is created in status
  \<^verbatim>\<open>created\<close> with all seven steps \<^verbatim>\<open>pending\<close>, the resolved video fields, the
  outputs, the error message, \<^verbatim>\<open>startedAt\<close> and \<^verbatim>\<open>completedAt\<close> null. The
  identifier the database generates, the default \<open>step0\<close> of \<^verbatim>\<open>current_step\<close> and the
  timestamp are parameters.
\<close>

definition insertedRow :: "string \<Rightarrow> int \<Rightarrow> string \<Rightarrow> CreateOptions \<Rightarrow> Workflow" where
  "insertedRow newId step0 now options =
     \<lparr>wf_id = newId,
      videoSource = trim (o_videoSource options),
      videoPath = None, videoName = None, videoId = None,
      status = W_created, currentStep = step0, errorMessage = None,
      stepStatuses = \<lparr>k1 = S_pending, k2 = S_pending, k3 = S_pending, k4 = S_pending,
                      k5 = S_pending, k6 = S_pending, k7 = S_pending\<rparr>,
      step1Output = None, step2Output = None, step3Output = None, step4Output = None,
      step5Output = None, step6Output = None, step7Output = None,
      config = (case o_config options of None \<Rightarrow> emptyConfig | Some c \<Rightarrow> c),
      enhancePromptId = orNull (o_enhancePromptId options),
      blogPromptId = orNull (o_blogPromptId options),
      socialPromptId = orNull (o_socialPromptId options),
      createdAt = now, updatedAt = now, startedAt = None, completedAt = None\<rparr>"

text \<open>
  \<^verbatim>\<open>createWorkflow\<close>: the insert fails when the identifier is taken (the primary key),
  and the function throws.
\<close>

definition createWorkflow ::
  "Store \<Rightarrow> string \<Rightarrow> int \<Rightarrow> CreateOptions \<Rightarrow> string \<Rightarrow> string + Store \<times> Workflow" where
  "createWorkflow db newId step0 options now =
     (case getWorkflow db newId of
        Some _ \<Rightarrow> Inl ''Failed to create workflow''
      | None \<Rightarrow>
          (let row = insertedRow newId step0 now options
           in Inr (db\<lparr>workflows := workflows db @ [row]\<rparr>, row)))"

text \<open>
  The body of \<^verbatim>\<open>POST /\<close>. \<open>b_videoSource = None\<close> stands for a \<^verbatim>\<open>videoSource\<close> that is
  absent, \<^verbatim>\<open>null\<close> or not a string: \<^verbatim>\<open>!videoSource || typeof videoSource !== 'string'\<close>
  rejects each of them, and of the strings it rejects the empty one only.
\<close>

record CreateBody =
  b_videoSource :: "string option"
  b_config :: "WorkflowConfig option"
  b_enhancePromptId :: "string option"
  b_blogPromptId :: "string option"
  b_socialPromptId :: "string option"

datatype Response =
    ValidationError
  | InvalidStep
  | NotFound
  | PrerequisiteError "int list"
  | AlreadyCompleted
  | ExecutionError string
  | Unhandled string
  | Created Workflow
  | StepInfo StepDetail
  | Succeeded Workflow "StepOutput option"

text \<open>
  \<open>Unhandled\<close> is an exception that leaves the handler (\<^verbatim>\<open>asyncHandler\<close> passes it to
  \<^verbatim>\<open>next\<close>); the other constructors are the responses the handlers send.
\<close>

definition create ::
  "Store \<Rightarrow> string \<Rightarrow> int \<Rightarrow> CreateBody \<Rightarrow> string \<Rightarrow> Store \<times> Response" where
  "create db newId step0 body now =
     (case b_videoSource body of
        None \<Rightarrow> (db, ValidationError)
      | Some source \<Rightarrow>
          if source = [] then (db, ValidationError)
          else
            (case createWorkflow db newId step0
                    \<lparr>o_videoSource = trim source, o_config = b_config body,
                     o_enhancePromptId = b_enhancePromptId body,
                     o_blogPromptId = b_blogPromptId body,
                     o_socialPromptId = b_socialPromptId body\<rparr> now of
               Inl e \<Rightarrow> (db, Unhandled e)
             | Inr (db', workflow) \<Rightarrow> (db', Created workflow)))"

section \<open>The step routes\<close>

text \<open>
  \<^verbatim>\<open>GET /:id/steps/:step\<close>. The parameter is \<open>None\<close> when \<^verbatim>\<open>parseInt\<close> yields
  \<^verbatim>\<open>NaN\<close>.
\<close>

definition getStep :: "Store \<Rightarrow> string \<Rightarrow> int option \<Rightarrow> Response" where
  "getStep db i stepParam =
     (case getWorkflow db i of
        None \<Rightarrow> NotFound
      | Some workflow \<Rightarrow>
          (case stepParam of
             None \<Rightarrow> InvalidStep
           | Some s \<Rightarrow> if s < 1 \<or> s > 7 then InvalidStep
                       else StepInfo (getStepStatus workflow s)))"

text \<open>
  The collaborators: what lies behind the checks of \<^verbatim>\<open>executeStep1\<close> ..
  \<^verbatim>\<open>executeStep7\<close> (download, transcription, language model, browser). Each either
  throws (\<open>Inl\<close>, with the message) or returns. Step 1 also yields the resolved video
  fields, which \<^verbatim>\<open>executeStep1\<close> writes to the store before it returns.
\<close>

record Acquired =
  a_videoPath :: string
  a_videoName :: string
  a_videoId :: "string option"
  a_output :: StepOutput

record Collaborators =
  acquire :: "Workflow \<Rightarrow> string + Acquired"
  external :: "int \<Rightarrow> Workflow \<Rightarrow> string + StepOutput"

definition executeStep1 ::
  "Collaborators \<Rightarrow> Store \<Rightarrow> Workflow \<Rightarrow> string \<Rightarrow> Store \<times> (string + StepOutput)" where
  "executeStep1 env db workflow now =
     (case acquire env workflow of
        Inl e \<Rightarrow> (db, Inl e)
      | Inr a \<Rightarrow>
          (case updateWorkflow db (wf_id workflow)
                  (noUpdates\<lparr>u_videoPath := Some (a_videoPath a),
                             u_videoName := Some (a_videoName a),
                             u_videoId := a_videoId a\<rparr>) now of
             Inl e \<Rightarrow> (db, Inl e)
           | Inr (db', _) \<Rightarrow> (db', Inr (a_output a))))"

definition executeStep2 :: "Collaborators \<Rightarrow> Workflow \<Rightarrow> string + StepOutput" where
  "executeStep2 env workflow =
     (if falsy (videoPath workflow) then Inl ''No video path available. Run step 1 first.''
      else external env 2 workflow)"

definition executeStep3 :: "Collaborators \<Rightarrow> Workflow \<Rightarrow> string + StepOutput" where
  "executeStep3 env workflow =
     (if step2Output workflow = None then Inl ''No transcript available. Run step 2 first.''
      else external env 3 workflow)"

definition executeStep4 :: "Collaborators \<Rightarrow> Workflow \<Rightarrow> string + StepOutput" where
  "executeStep4 env workflow =
     (if step3Output workflow = None \<or> falsy (videoPath workflow) \<or> falsy (videoName workflow)
      then Inl ''Missing prerequisites. Run steps 1-3 first.''
      else external env 4 workflow)"

definition executeStep5 :: "Collaborators \<Rightarrow> Workflow \<Rightarrow> string + StepOutput" where
  "executeStep5 env workflow =
     (if step2Output workflow = None \<or> falsy (videoName workflow)
      then Inl ''Missing prerequisites. Run steps 1-2 first.''
      else external env 5 workflow)"

definition executeStep6 :: "Collaborators \<Rightarrow> Workflow \<Rightarrow> string + StepOutput" where
  "executeStep6 env workflow =
     (if step3Output workflow = None \<or> step4Output workflow = None \<or> falsy (videoName workflow)
      then Inl ''Missing prerequisites. Run steps 1-4 first.''
      else external env 6 workflow)"

definition executeStep7 :: "Collaborators \<Rightarrow> Workflow \<Rightarrow> string + StepOutput" where
  "executeStep7 env workflow =
     (if step3Output workflow = None \<or> falsy (videoName workflow)
      then Inl ''Missing prerequisites. Run steps 1-3 first.''
      else external env 7 workflow)"

text \<open>
  The \<^verbatim>\<open>switch (step)\<close> of the route. It has no default case: for a step that matches
  no case, \<^verbatim>\<open>stepOutput\<close> stays \<^verbatim>\<open>undefined\<close> (\<open>None\<close>).
\<close>

definition dispatch ::
  "Collaborators \<Rightarrow> Store \<Rightarrow> Workflow \<Rightarrow> int \<Rightarrow> string
     \<Rightarrow> Store \<times> (string + StepOutput option)" where
  "dispatch env db workflow s now =
     (if s = 1 then (case executeStep1 env db workflow now of
                       (db', r) \<Rightarrow> (db', map_sum (\<lambda>e. e) Some r))
      else if s = 2 then (db, map_sum (\<lambda>e. e) Some (executeStep2 env workflow))
      else if s = 3 then (db, map_sum (\<lambda>e. e) Some (executeStep3 env workflow))
      else if s = 4 then (db, map_sum (\<lambda>e. e) Some (executeStep4 env workflow))
      else if s = 5 then (db, map_sum (\<lambda>e. e) Some (executeStep5 env workflow))
      else if s = 6 then (db, map_sum (\<lambda>e. e) Some (executeStep6 env workflow))
      else if s = 7 then (db, map_sum (\<lambda>e. e) Some (executeStep7 env workflow))
      else (db, Inr None))"

text \<open>
  \<^verbatim>\<open>{ [outputKey]: stepOutput }\<close> with \<^verbatim>\<open>outputKey = `step${step}Output`\<close>:
  \<^verbatim>\<open>updateWorkflow\<close> reads the seven output keys and no other.
\<close>

definition outputUpdate :: "int \<Rightarrow> StepOutput option \<Rightarrow> Updates" where
  "outputUpdate s out =
     (if s = 1 then noUpdates\<lparr>u_step1Output := out\<rparr>
      else if s = 2 then noUpdates\<lparr>u_step2Output := out\<rparr>
      else if s = 3 then noUpdates\<lparr>u_step3Output := out\<rparr>
      else if s = 4 then noUpdates\<lparr>u_step4Output := out\<rparr>
      else if s = 5 then noUpdates\<lparr>u_step5Output := out\<rparr>
      else if s = 6 then noUpdates\<lparr>u_step6Output := out\<rparr>
      else if s = 7 then noUpdates\<lparr>u_step7Output := out\<rparr>
      else noUpdates)"

text \<open>The \<^verbatim>\<open>catch\<close> block; an exception thrown inside it leaves the handler.\<close>

definition catchBlock ::
  "Store \<Rightarrow> string \<Rightarrow> Workflow \<Rightarrow> int \<Rightarrow> string \<Rightarrow> string \<Rightarrow> Store \<times> Response" where
  "catchBlock db i workflow s message now =
     (case updateStepStatus db i s S_error now of
        Inl e \<Rightarrow> (db, Unhandled e)
      | Inr (db1, _) \<Rightarrow>
          (let db2 = logWorkflowProgress db1 (wf_id workflow) s ''error'' (Text message)
           in case failWorkflow db2 i message now of
                Inl e \<Rightarrow> (db2, Unhandled e)
              | Inr (db3, _) \<Rightarrow> (db3, ExecutionError message)))"

text \<open>
  The \<^verbatim>\<open>try\<close> block. The variable \<^verbatim>\<open>workflow\<close> is reassigned as the block proceeds;
  the \<^verbatim>\<open>catch\<close> block receives the one it holds where the exception is thrown.
\<close>

definition tryBlock ::
  "Collaborators \<Rightarrow> Store \<Rightarrow> string \<Rightarrow> Workflow \<Rightarrow> int \<Rightarrow> string \<Rightarrow> Store \<times> Response" where
  "tryBlock env db i workflow s now =
     (case dispatch env db workflow s now of
        (dbc, Inl message) \<Rightarrow> catchBlock dbc i workflow s message now
      | (dbc, Inr stepOutput) \<Rightarrow>
          (case updateWorkflow dbc i (outputUpdate s stepOutput) now of
             Inl e \<Rightarrow> catchBlock dbc i workflow s e now
           | Inr (db1, workflow1) \<Rightarrow>
               (case updateStepStatus db1 i s S_completed now of
                  Inl e \<Rightarrow> catchBlock db1 i workflow1 s e now
                | Inr (db2, workflow2) \<Rightarrow>
                    (let db3 = logWorkflowProgress db2 (wf_id workflow2) s ''completed''
                                 (StepCompleted s);
                         allComplete = list_all (\<lambda>x. x = S_completed \<or> x = S_skipped)
                                         (stepValues (stepStatuses workflow2))
                     in if allComplete
                        then (case completeWorkflow db3 i now of
                                Inl e \<Rightarrow> catchBlock db3 i workflow2 s e now
                              | Inr (db4, workflow4) \<Rightarrow> (db4, Succeeded workflow4 stepOutput))
                        else (db3, Succeeded workflow2 stepOutput)))))"

text \<open>
  \<^verbatim>\<open>POST /:id/steps/:step/execute\<close>. \<open>force\<close> is the truthiness of the body's
  \<^verbatim>\<open>force\<close>.
\<close>

definition executeStep ::
  "Collaborators \<Rightarrow> Store \<Rightarrow> string \<Rightarrow> int option \<Rightarrow> bool \<Rightarrow> string \<Rightarrow> Store \<times> Response" where
  "executeStep env db i stepParam force now =
     (case stepParam of
        None \<Rightarrow> (db, InvalidStep)
      | Some s \<Rightarrow>
          if s < 1 \<or> s > 7 then (db, InvalidStep)
          else
            (case getWorkflow db i of
               None \<Rightarrow> (db, NotFound)
             | Some workflow \<Rightarrow>
                 (let prereqCheck = checkStepPrerequisites workflow s
                  in if \<not> canExecute prereqCheck \<and> \<not> force
                     then (db, PrerequisiteError (missingPrerequisites prereqCheck))
                     else if readStatus (stepStatuses workflow) s = Some S_completed \<and> \<not> force
                     then (db, AlreadyCompleted)
                     else
                       (case updateStepStatus db i s S_in_progress now of
                          Inl e \<Rightarrow> (db, Unhandled e)
                        | Inr (db1, workflow1) \<Rightarrow>
                            tryBlock env
                              (logWorkflowProgress db1 (wf_id workflow1) s ''in_progress''
                                 (Starting s))
                              i workflow1 s now))))"

section \<open>The prerequisite graph as the specification states it\<close>

text \<open>
  The fixed graph in the words of the specification:
  1 \<rightarrow> {}; 2 \<rightarrow> {1}; 3 \<rightarrow> {2}; 4 \<rightarrow> {3}; 5 \<rightarrow> {3}; 6 \<rightarrow> {3,4}; 7 \<rightarrow> {3}. A number outside 1..7 has
  no prerequisites. It is compared below with what \<open>canExecuteStep\<close> computes from
  \<open>STEP_DEFINITIONS\<close>.
\<close>

definition prerequisite_graph :: "int \<Rightarrow> int set" where
  "prerequisite_graph s =
     (if s = 1 then {} else if s = 2 then {1} else if s = 3 then {2}
      else if s = 4 then {3} else if s = 5 then {3} else if s = 6 then {3, 4}
      else if s = 7 then {3} else {})"

section \<open>The output invariant as the specification states it\<close>

text \<open>
  The data-model invariant in the words of the specification: a step's output is
  non-null only if its status is \<^verbatim>\<open>completed\<close>, for each of the seven steps.
\<close>

definition output_only_if_completed :: "Workflow \<Rightarrow> bool" where
  "output_only_if_completed w =
     list_all (\<lambda>k. outputMap w k = None \<or> readStatus (stepStatuses w) k = Some S_completed)
       [1, 2, 3, 4, 5, 6, 7]"

section \<open>Reachable stores\<close>

text \<open>
  The stores that the operations produce from the empty store: creation, execution of a
  step, start, pause, completion and failure, with any arguments and any behaviour of the
  collaborators.
\<close>

inductive reachable :: "Store \<Rightarrow> bool" where
  reach_init: "reachable \<lparr>workflows = [], workflow_logs = []\<rparr>"
| reach_create: "reachable db \<Longrightarrow> reachable (fst (create db newId step0 body now))"
| reach_executeStep:
    "reachable db \<Longrightarrow> reachable (fst (executeStep env db i stepParam force now))"
| reach_start:
    "reachable db \<Longrightarrow> startWorkflow db i fromStep now = Inr (db', w) \<Longrightarrow> reachable db'"
| reach_pause: "reachable db \<Longrightarrow> pauseWorkflow db i now = Inr (db', w) \<Longrightarrow> reachable db'"
| reach_complete: "reachable db \<Longrightarrow> completeWorkflow db i now = Inr (db', w) \<Longrightarrow> reachable db'"
| reach_fail: "reachable db \<Longrightarrow> failWorkflow db i message now = Inr (db', w) \<Longrightarrow> reachable db'"

text \<open>
  The same, with the two operations left out that re-enter a step which has run before:
  steps are executed without \<^verbatim>\<open>force\<close>, and \<^verbatim>\<open>start\<close> is called without a
  \<^verbatim>\<open>fromStep\<close> between 1 and 7.
\<close>

inductive reachable_unforced :: "Store \<Rightarrow> bool" where
  plain_init: "reachable_unforced \<lparr>workflows = [], workflow_logs = []\<rparr>"
| plain_create:
    "reachable_unforced db \<Longrightarrow> reachable_unforced (fst (create db newId step0 body now))"
| plain_executeStep:
    "reachable_unforced db \<Longrightarrow>
     reachable_unforced (fst (executeStep env db i stepParam False now))"
| plain_start:
    "reachable_unforced db \<Longrightarrow> fromStep = None \<or> (\<exists>k. fromStep = Some k \<and> (k < 1 \<or> 7 < k)) \<Longrightarrow>
     startWorkflow db i fromStep now = Inr (db', w) \<Longrightarrow> reachable_unforced db'"
| plain_pause:
    "reachable_unforced db \<Longrightarrow> pauseWorkflow db i now = Inr (db', w) \<Longrightarrow> reachable_unforced db'"
| plain_complete:
    "reachable_unforced db \<Longrightarrow> completeWorkflow db i now = Inr (db', w) \<Longrightarrow>
     reachable_unforced db'"
| plain_fail:
    "reachable_unforced db \<Longrightarrow> failWorkflow db i message now = Inr (db', w) \<Longrightarrow>
     reachable_unforced db'"

section \<open>Example states\<close>

text \<open>Collaborators that throw, and collaborators that return.\<close>

definition env_throws :: Collaborators where
  "env_throws = \<lparr>acquire = (\<lambda>w. Inl ''download failed''),
                  external = (\<lambda>s w. Inl ''collaborator failed'')\<rparr>"

definition env_returns :: Collaborators where
  "env_returns =
     \<lparr>acquire = (\<lambda>w. Inr \<lparr>a_videoPath = ''/data/videos/a.mp4'', a_videoName = ''a'',
                         a_videoId = None, a_output = Payload ''download''\<rparr>),
      external = (\<lambda>s w. Inr (Payload ''result''))\<rparr>"

text \<open>The request body \<^verbatim>\<open>{ videoSource: "a.mp4" }\<close> and the workflow it creates.\<close>

definition ex_body :: CreateBody where
  "ex_body = \<lparr>b_videoSource = Some ''a.mp4'', b_config = None, b_enhancePromptId = None,
               b_blogPromptId = None, b_socialPromptId = None\<rparr>"

definition ex_created :: Workflow where
  "ex_created =
     \<lparr>wf_id = ''wf1'', videoSource = ''a.mp4'',
      videoPath = None, videoName = None, videoId = None,
      status = W_created, currentStep = 0, errorMessage = None,
      stepStatuses = \<lparr>k1 = S_pending, k2 = S_pending, k3 = S_pending, k4 = S_pending,
                      k5 = S_pending, k6 = S_pending, k7 = S_pending\<rparr>,
      step1Output = None, step2Output = None, step3Output = None, step4Output = None,
      step5Output = None, step6Output = None, step7Output = None,
      config = emptyConfig,
      enhancePromptId = None, blogPromptId = None, socialPromptId = None,
      createdAt = ''t0'', updatedAt = ''t0'', startedAt = None, completedAt = None\<rparr>"

definition ex_db :: Store where
  "ex_db = \<lparr>workflows = [ex_created], workflow_logs = []\<rparr>"

text \<open>The same workflow after step 1 has run, and the store that holds it.\<close>

definition ex_step1 :: Workflow where
  "ex_step1 = ex_created\<lparr>
     videoPath := Some ''/data/videos/a.mp4'', videoName := Some ''a'',
     currentStep := 1,
     stepStatuses := \<lparr>k1 = S_completed, k2 = S_pending, k3 = S_pending, k4 = S_pending,
                       k5 = S_pending, k6 = S_pending, k7 = S_pending\<rparr>,
     step1Output := Some (Payload ''download''), updatedAt := ''t1''\<rparr>"

definition ex_step1_db :: Store where
  "ex_step1_db =
     \<lparr>workflows = [ex_step1],
      workflow_logs =
        [\<lparr>log_workflowId = ''wf1'', log_step = 1, log_status = ''in_progress'',
          log_message = Starting 1, log_metadata = None\<rparr>,
         \<lparr>log_workflowId = ''wf1'', log_step = 1, log_status = ''completed'',
          log_message = StepCompleted 1, log_metadata = None\<rparr>]\<rparr>"

text \<open>After \<^verbatim>\<open>start\<close> with \<^verbatim>\<open>fromStep = 1\<close> on that store.\<close>

definition ex_restarted :: Workflow where
  "ex_restarted = ex_step1\<lparr>
     status := W_in_progress, startedAt := Some ''t2'', updatedAt := ''t2'',
     stepStatuses := \<lparr>k1 = S_pending, k2 = S_pending, k3 = S_pending, k4 = S_pending,
                       k5 = S_pending, k6 = S_pending, k7 = S_pending\<rparr>\<rparr>"

definition ex_restarted_db :: Store where
  "ex_restarted_db = ex_step1_db\<lparr>workflows := [ex_restarted]\<rparr>"

text \<open>A workflow whose seven steps are completed, promoted at time \<open>t7\<close>.\<close>

definition ex_done :: Workflow where
  "ex_done = ex_created\<lparr>
     videoPath := Some ''/data/videos/a.mp4'', videoName := Some ''a'',
     status := W_completed, currentStep := 7,
     stepStatuses := \<lparr>k1 = S_completed, k2 = S_completed, k3 = S_completed,
                       k4 = S_completed, k5 = S_completed, k6 = S_completed,
                       k7 = S_completed\<rparr>,
     step1Output := Some (Payload ''download''), step2Output := Some (Payload ''result''),
     step3Output := Some (Payload ''result''), step4Output := Some (Payload ''result''),
     step5Output := Some (Payload ''result''), step6Output := Some (Payload ''result''),
     step7Output := Some (Payload ''result''),
     updatedAt := ''t7'', completedAt := Some ''t7''\<rparr>"

definition ex_done_db :: Store where
  "ex_done_db = \<lparr>workflows = [ex_done], workflow_logs = []\<rparr>"

section \<open>Facts about the status map and the store\<close>

declare resetFrom.simps [simp del]

lemma readStatus_writeStatus:
  "readStatus (writeStatus ss k v) j =
     (if j = k \<and> 1 \<le> k \<and> k \<le> 7 then Some v else readStatus ss j)"
  by (auto simp: readStatus_def writeStatus_def)

lemma readStatus_resetFrom:
  "readStatus (resetFrom ss k) j =
     (if k \<le> j \<and> 1 \<le> j \<and> j \<le> 7 then Some S_pending else readStatus ss j)"
proof (induction ss k rule: resetFrom.induct)
  case (1 ss i)
  show ?case
  proof (cases "i \<le> 7")
    case True
    with 1 show ?thesis
      by (subst resetFrom.simps) (auto simp: readStatus_writeStatus)
  next
    case False
    then show ?thesis by (subst resetFrom.simps) auto
  qed
qed

lemma overwrite_simps [simp]: "overwrite None x = x" "overwrite (Some v) x = Some v"
  by (simp_all add: overwrite_def)

lemma wf_id_applyUpdates [simp]: "wf_id (applyUpdates u now w) = wf_id w"
  by (simp add: applyUpdates_def)

lemma find_map_row:
  "find (\<lambda>w. wf_id w = j) (map (\<lambda>r. if wf_id r = i then applyUpdates u now r else r) rows) =
     (if j = i then map_option (applyUpdates u now) (find (\<lambda>w. wf_id w = i) rows)
      else find (\<lambda>w. wf_id w = j) rows)"
  by (induction rows) auto

lemma getWorkflow_updated:
  "getWorkflow
     (db\<lparr>workflows := map (\<lambda>r. if wf_id r = i then applyUpdates u now r else r) (workflows db)\<rparr>) j =
     (if j = i then map_option (applyUpdates u now) (getWorkflow db i) else getWorkflow db j)"
  by (simp add: getWorkflow_def find_map_row)

lemma getWorkflow_log [simp]:
  "getWorkflow (logWorkflowProgress db a s st m) j = getWorkflow db j"
  by (simp add: getWorkflow_def logWorkflowProgress_def)

lemma getWorkflow_id: "getWorkflow db i = Some w \<Longrightarrow> wf_id w = i"
  by (auto simp: getWorkflow_def find_Some_iff)

lemma updateWorkflow_Some:
  "getWorkflow db i = Some w \<Longrightarrow>
   updateWorkflow db i u now =
     Inr (db\<lparr>workflows := map (\<lambda>r. if wf_id r = i then applyUpdates u now r else r) (workflows db)\<rparr>,
          applyUpdates u now w)"
  by (simp add: updateWorkflow_def)

text \<open>An update of an existing row succeeds, replaces that row and nothing else.\<close>

lemma updateWorkflow_effect:
  assumes "getWorkflow db i = Some w"
  shows "\<exists>db'. updateWorkflow db i u now = Inr (db', applyUpdates u now w)
           \<and> getWorkflow db' i = Some (applyUpdates u now w)
           \<and> (\<forall>j. j \<noteq> i \<longrightarrow> getWorkflow db' j = getWorkflow db j)
           \<and> workflow_logs db' = workflow_logs db"
  using assms by (simp add: updateWorkflow_Some getWorkflow_updated)

lemma updateStepStatus_effect:
  assumes "getWorkflow db i = Some w"
  shows "\<exists>db'. updateStepStatus db i s st now =
             Inr (db', applyUpdates (noUpdates\<lparr>
                    u_stepStatuses := Some (writeStatus (stepStatuses w) s st),
                    u_currentStep := Some (if st = S_in_progress then s else currentStep w)\<rparr>) now w)
           \<and> getWorkflow db' i = Some (applyUpdates (noUpdates\<lparr>
                    u_stepStatuses := Some (writeStatus (stepStatuses w) s st),
                    u_currentStep := Some (if st = S_in_progress then s else currentStep w)\<rparr>) now w)
           \<and> (\<forall>j. j \<noteq> i \<longrightarrow> getWorkflow db' j = getWorkflow db j)
           \<and> workflow_logs db' = workflow_logs db"
  using assms updateWorkflow_effect [OF assms] by (simp add: updateStepStatus_def)

section \<open>Facts about the prerequisite check\<close>

lemma find_step:
  "find (\<lambda>d. step d = s) STEP_DEFINITIONS =
     (if s = 1 then Some (STEP_DEFINITIONS ! 0) else if s = 2 then Some (STEP_DEFINITIONS ! 1)
      else if s = 3 then Some (STEP_DEFINITIONS ! 2) else if s = 4 then Some (STEP_DEFINITIONS ! 3)
      else if s = 5 then Some (STEP_DEFINITIONS ! 4) else if s = 6 then Some (STEP_DEFINITIONS ! 5)
      else if s = 7 then Some (STEP_DEFINITIONS ! 6) else None)"
  by (simp add: STEP_DEFINITIONS_def)

lemma canExecuteStep_cases:
  "canExecuteStep w s =
     (if s < 1 \<or> s > 7 then \<lparr>canExecute = False, missingPrerequisites = []\<rparr>
      else (let missing = filter (\<lambda>p. readStatus (stepStatuses w) p \<noteq> Some S_completed)
                 (if s = 1 then [] else if s = 2 then [1] else if s = 3 then [2]
                  else if s = 6 then [3, 4] else [3])
            in \<lparr>canExecute = (missing = []), missingPrerequisites = missing\<rparr>))"
proof -
  consider "s < 1 \<or> s > 7" | "s = 1" | "s = 2" | "s = 3" | "s = 4" | "s = 5" | "s = 6" | "s = 7"
    by arith
  then show ?thesis
    by cases (auto simp: canExecuteStep_def find_step STEP_DEFINITIONS_def Let_def)
qed

lemma select_one: "{p. p = a \<and> P p} = (if P a then {a} else {})"
  by auto

lemma select_two:
  "{p. (p = a \<or> p = b) \<and> P p} = (if P a then {a} else {}) \<union> (if P b then {b} else {})"
  by auto

section \<open>Facts about the execution of a step\<close>

lemma catchBlock_response:
  "snd (catchBlock db i w s m now) \<noteq> PrerequisiteError ms \<and>
   snd (catchBlock db i w s m now) \<noteq> AlreadyCompleted"
  by (simp add: catchBlock_def Let_def split: sum.split prod.split)

lemma tryBlock_response:
  "snd (tryBlock env db i w s now) \<noteq> PrerequisiteError ms \<and>
   snd (tryBlock env db i w s now) \<noteq> AlreadyCompleted"
  by (simp add: tryBlock_def Let_def catchBlock_response split: sum.split prod.split)

lemma dispatch_Inl: "dispatch env db wk s now = (dbc, Inl m) \<Longrightarrow> dbc = db"
  by (auto simp: dispatch_def executeStep1_def split: if_splits sum.splits prod.splits)

text \<open>
  A collaborator that returns leaves the row of the workflow in place and changes none
  of the fields the engine maintains (step 1 writes the video fields).
\<close>

lemma dispatch_Inr:
  assumes "getWorkflow db (wf_id wk) = Some w0" and "dispatch env db wk s now = (dbc, Inr out)"
  shows "\<exists>wc. getWorkflow dbc (wf_id wk) = Some wc
           \<and> (\<forall>j. j \<noteq> wf_id wk \<longrightarrow> getWorkflow dbc j = getWorkflow db j)
           \<and> stepStatuses wc = stepStatuses w0 \<and> status wc = status w0
           \<and> completedAt wc = completedAt w0 \<and> errorMessage wc = errorMessage w0
           \<and> currentStep wc = currentStep w0 \<and> startedAt wc = startedAt w0
           \<and> (\<forall>j. outputMap wc j = outputMap w0 j)
           \<and> workflow_logs dbc = workflow_logs db"
proof (cases "s = 1")
  case False
  with assms(2) have "dbc = db"
    by (auto simp: dispatch_def split: if_splits)
  with assms(1) show ?thesis by simp
next
  case True
  with assms(2) obtain a where a: "acquire env wk = Inr a"
    and u: "updateWorkflow db (wf_id wk)
              (noUpdates\<lparr>u_videoPath := Some (a_videoPath a), u_videoName := Some (a_videoName a),
                 u_videoId := a_videoId a\<rparr>) now = Inr (dbc, snd (projr (updateWorkflow db (wf_id wk)
              (noUpdates\<lparr>u_videoPath := Some (a_videoPath a), u_videoName := Some (a_videoName a),
                 u_videoId := a_videoId a\<rparr>) now)))"
    by (auto simp: dispatch_def executeStep1_def split: sum.splits prod.splits)
  from updateWorkflow_effect [OF assms(1), of "noUpdates\<lparr>u_videoPath := Some (a_videoPath a),
      u_videoName := Some (a_videoName a), u_videoId := a_videoId a\<rparr>" now] u
  show ?thesis
    by (auto simp: applyUpdates_def noUpdates_def outputMap_def)
qed

lemma catchBlock_effect:
  assumes "getWorkflow db i = Some w"
  shows "\<exists>db'. catchBlock db i wk s m now = (db', ExecutionError m)
           \<and> getWorkflow db' i =
               Some (applyUpdates (noUpdates\<lparr>u_status := Some W_error,
                                     u_errorMessage := Some (Some m)\<rparr>) now
                      (applyUpdates (noUpdates\<lparr>
                          u_stepStatuses := Some (writeStatus (stepStatuses w) s S_error),
                          u_currentStep := Some (currentStep w)\<rparr>) now w))
           \<and> (\<forall>j. j \<noteq> i \<longrightarrow> getWorkflow db' j = getWorkflow db j)
           \<and> workflow_logs db' = workflow_logs db @
                [\<lparr>log_workflowId = wf_id wk, log_step = s, log_status = ''error'',
                  log_message = Text m, log_metadata = None\<rparr>]"
proof -
  let ?w1 = "applyUpdates (noUpdates\<lparr>
                u_stepStatuses := Some (writeStatus (stepStatuses w) s S_error),
                u_currentStep := Some (currentStep w)\<rparr>) now w"
  from updateStepStatus_effect [OF assms, of s S_error now]
  obtain db1 where 1: "updateStepStatus db i s S_error now = Inr (db1, ?w1)"
    and g1: "getWorkflow db1 i = Some ?w1"
    and o1: "\<forall>j. j \<noteq> i \<longrightarrow> getWorkflow db1 j = getWorkflow db j"
    and l1: "workflow_logs db1 = workflow_logs db"
    by auto
  let ?db2 = "logWorkflowProgress db1 (wf_id wk) s ''error'' (Text m)"
  have g2: "getWorkflow ?db2 i = Some ?w1" using g1 by simp
  from updateWorkflow_effect [OF g2, of "noUpdates\<lparr>u_status := Some W_error,
         u_errorMessage := Some (Some m)\<rparr>" now]
  obtain db3 where 3: "failWorkflow ?db2 i m now =
        Inr (db3, applyUpdates (noUpdates\<lparr>u_status := Some W_error,
               u_errorMessage := Some (Some m)\<rparr>) now ?w1)"
    and g3: "getWorkflow db3 i = Some (applyUpdates (noUpdates\<lparr>u_status := Some W_error,
               u_errorMessage := Some (Some m)\<rparr>) now ?w1)"
    and o3: "\<forall>j. j \<noteq> i \<longrightarrow> getWorkflow db3 j = getWorkflow ?db2 j"
    and l3: "workflow_logs db3 = workflow_logs ?db2"
    by (auto simp: failWorkflow_def)
  have "catchBlock db i wk s m now = (db3, ExecutionError m)"
    using 1 3 by (simp add: catchBlock_def)
  moreover have "workflow_logs db3 = workflow_logs db @
                [\<lparr>log_workflowId = wf_id wk, log_step = s, log_status = ''error'',
                  log_message = Text m, log_metadata = None\<rparr>]"
    using l3 l1 by (simp add: logWorkflowProgress_def)
  moreover have "\<forall>j. j \<noteq> i \<longrightarrow> getWorkflow db3 j = getWorkflow db j"
    using o3 o1 by simp
  ultimately show ?thesis using g3 by blast
qed

lemma tryBlock_cases:
  assumes "getWorkflow db i = Some w" and "wf_id wk = i"
  shows "(\<exists>m db'. dispatch env db wk s now = (db, Inl m)
            \<and> tryBlock env db i wk s now = (db', ExecutionError m)
            \<and> getWorkflow db' i =
               Some (applyUpdates (noUpdates\<lparr>u_status := Some W_error,
                                     u_errorMessage := Some (Some m)\<rparr>) now
                      (applyUpdates (noUpdates\<lparr>
                          u_stepStatuses := Some (writeStatus (stepStatuses w) s S_error),
                          u_currentStep := Some (currentStep w)\<rparr>) now w))
            \<and> (\<forall>j. j \<noteq> i \<longrightarrow> getWorkflow db' j = getWorkflow db j)
            \<and> workflow_logs db' = workflow_logs db @
                [\<lparr>log_workflowId = i, log_step = s, log_status = ''error'',
                  log_message = Text m, log_metadata = None\<rparr>])
       \<or> (\<exists>out dbc wc db' w2.
            dispatch env db wk s now = (dbc, Inr out)
            \<and> stepStatuses wc = stepStatuses w \<and> status wc = status w
            \<and> completedAt wc = completedAt w \<and> errorMessage wc = errorMessage w
            \<and> currentStep wc = currentStep w \<and> startedAt wc = startedAt w
            \<and> (\<forall>j. outputMap wc j = outputMap w j)
            \<and> w2 = applyUpdates (noUpdates\<lparr>
                      u_stepStatuses := Some (writeStatus (stepStatuses wc) s S_completed),
                      u_currentStep := Some (currentStep wc)\<rparr>) now
                     (applyUpdates (outputUpdate s out) now wc)
            \<and> tryBlock env db i wk s now =
                 (db', Succeeded
                    (if list_all (\<lambda>x. x = S_completed \<or> x = S_skipped) (stepValues (stepStatuses w2))
                     then applyUpdates (noUpdates\<lparr>u_status := Some W_completed,
                            u_completedAt := Some now\<rparr>) now w2
                     else w2) out)
            \<and> getWorkflow db' i =
                 Some (if list_all (\<lambda>x. x = S_completed \<or> x = S_skipped) (stepValues (stepStatuses w2))
                       then applyUpdates (noUpdates\<lparr>u_status := Some W_completed,
                              u_completedAt := Some now\<rparr>) now w2
                       else w2)
            \<and> (\<forall>j. j \<noteq> i \<longrightarrow> getWorkflow db' j = getWorkflow db j)
            \<and> workflow_logs db' = workflow_logs db @
                [\<lparr>log_workflowId = i, log_step = s, log_status = ''completed'',
                  log_message = StepCompleted s, log_metadata = None\<rparr>])"
proof -
  obtain dbc r where d: "dispatch env db wk s now = (dbc, r)"
    by (cases "dispatch env db wk s now")
  show ?thesis
  proof (cases r)
    case (Inl m)
    with d have dbc: "dbc = db" by (simp add: dispatch_Inl)
    from catchBlock_effect [OF assms(1), of wk s m now] d Inl dbc assms(2)
    show ?thesis by (auto simp: tryBlock_def)
  next
    case (Inr out)
    from assms have g: "getWorkflow db (wf_id wk) = Some w" by simp
    from dispatch_Inr [OF g] d Inr assms(2)
    obtain wc where gc: "getWorkflow dbc i = Some wc"
      and oc: "\<forall>j. j \<noteq> i \<longrightarrow> getWorkflow dbc j = getWorkflow db j"
      and fr: "stepStatuses wc = stepStatuses w" "status wc = status w"
        "completedAt wc = completedAt w" "errorMessage wc = errorMessage w"
        "currentStep wc = currentStep w" "startedAt wc = startedAt w"
        "\<forall>j. outputMap wc j = outputMap w j"
      and lc: "workflow_logs dbc = workflow_logs db"
      by blast
    let ?wo = "applyUpdates (outputUpdate s out) now wc"
    from updateWorkflow_effect [OF gc, of "outputUpdate s out" now]
    obtain db1 where 1: "updateWorkflow dbc i (outputUpdate s out) now = Inr (db1, ?wo)"
      and g1: "getWorkflow db1 i = Some ?wo"
      and o1: "\<forall>j. j \<noteq> i \<longrightarrow> getWorkflow db1 j = getWorkflow dbc j"
      and l1: "workflow_logs db1 = workflow_logs dbc"
      by auto
    let ?w2 = "applyUpdates (noUpdates\<lparr>
                      u_stepStatuses := Some (writeStatus (stepStatuses ?wo) s S_completed),
                      u_currentStep := Some (currentStep ?wo)\<rparr>) now ?wo"
    from updateStepStatus_effect [OF g1, of s S_completed now]
    obtain db2 where 2: "updateStepStatus db1 i s S_completed now = Inr (db2, ?w2)"
      and g2: "getWorkflow db2 i = Some ?w2"
      and o2: "\<forall>j. j \<noteq> i \<longrightarrow> getWorkflow db2 j = getWorkflow db1 j"
      and l2: "workflow_logs db2 = workflow_logs db1"
      by auto
    have wo: "stepStatuses ?wo = stepStatuses wc" "currentStep ?wo = currentStep wc"
      by (simp_all add: applyUpdates_def outputUpdate_def noUpdates_def)
    have id2: "wf_id ?w2 = i" using gc by (simp add: getWorkflow_id)
    let ?db3 = "logWorkflowProgress db2 i s ''completed'' (StepCompleted s)"
    have g3: "getWorkflow ?db3 i = Some ?w2" using g2 by simp
    have l3: "workflow_logs ?db3 = workflow_logs db @
                [\<lparr>log_workflowId = i, log_step = s, log_status = ''completed'',
                  log_message = StepCompleted s, log_metadata = None\<rparr>]"
      using l2 l1 lc by (simp add: logWorkflowProgress_def)
    have o3: "\<forall>j. j \<noteq> i \<longrightarrow> getWorkflow ?db3 j = getWorkflow db j"
      using o2 o1 oc by simp
    show ?thesis
    proof (cases "list_all (\<lambda>x. x = S_completed \<or> x = S_skipped) (stepValues (stepStatuses ?w2))")
      case False
      have "tryBlock env db i wk s now = (?db3, Succeeded ?w2 out)"
        using d Inr 1 2 False id2 by (simp add: tryBlock_def Let_def)
      with False g3 l3 o3 fr d Inr show ?thesis
        unfolding wo by (intro disjI2 exI [of _ out] exI [of _ dbc] exI [of _ wc]
            exI [of _ ?db3] exI [of _ "applyUpdates (noUpdates\<lparr>
                      u_stepStatuses := Some (writeStatus (stepStatuses wc) s S_completed),
                      u_currentStep := Some (currentStep wc)\<rparr>) now ?wo"]) simp
    next
      case True
      let ?w4 = "applyUpdates (noUpdates\<lparr>u_status := Some W_completed,
                            u_completedAt := Some now\<rparr>) now ?w2"
      from updateWorkflow_effect [OF g3, of "noUpdates\<lparr>u_status := Some W_completed,
                            u_completedAt := Some now\<rparr>" now]
      obtain db4 where 4: "completeWorkflow ?db3 i now = Inr (db4, ?w4)"
        and g4: "getWorkflow db4 i = Some ?w4"
        and o4: "\<forall>j. j \<noteq> i \<longrightarrow> getWorkflow db4 j = getWorkflow ?db3 j"
        and l4: "workflow_logs db4 = workflow_logs ?db3"
        by (auto simp: completeWorkflow_def)
      have "tryBlock env db i wk s now = (db4, Succeeded ?w4 out)"
        using d Inr 1 2 True id2 4 by (simp add: tryBlock_def Let_def)
      moreover have "\<forall>j. j \<noteq> i \<longrightarrow> getWorkflow db4 j = getWorkflow db j"
        using o4 o3 by simp
      moreover have "workflow_logs db4 = workflow_logs db @
                [\<lparr>log_workflowId = i, log_step = s, log_status = ''completed'',
                  log_message = StepCompleted s, log_metadata = None\<rparr>]"
        using l4 l3 by simp
      ultimately show ?thesis using True g4 fr d Inr
        unfolding wo by (intro disjI2 exI [of _ out] exI [of _ dbc] exI [of _ wc]
            exI [of _ db4] exI [of _ "applyUpdates (noUpdates\<lparr>
                      u_stepStatuses := Some (writeStatus (stepStatuses wc) s S_completed),
                      u_currentStep := Some (currentStep wc)\<rparr>) now ?wo"]) simp
    qed
  qed
qed

lemma executeStep_running:
  assumes "getWorkflow db i = Some w" and "1 \<le> s" and "s \<le> 7"
    and "force \<or> (canExecute (canExecuteStep w s) \<and> readStatus (stepStatuses w) s \<noteq> Some S_completed)"
  shows "\<exists>dbL. executeStep env db i (Some s) force now =
             tryBlock env dbL i
               (applyUpdates (noUpdates\<lparr>
                   u_stepStatuses := Some (writeStatus (stepStatuses w) s S_in_progress),
                   u_currentStep := Some s\<rparr>) now w) s now
           \<and> getWorkflow dbL i =
               Some (applyUpdates (noUpdates\<lparr>
                   u_stepStatuses := Some (writeStatus (stepStatuses w) s S_in_progress),
                   u_currentStep := Some s\<rparr>) now w)
           \<and> (\<forall>j. j \<noteq> i \<longrightarrow> getWorkflow dbL j = getWorkflow db j)
           \<and> workflow_logs dbL = workflow_logs db @
                [\<lparr>log_workflowId = i, log_step = s, log_status = ''in_progress'',
                  log_message = Starting s, log_metadata = None\<rparr>]"
proof -
  let ?w1 = "applyUpdates (noUpdates\<lparr>
                   u_stepStatuses := Some (writeStatus (stepStatuses w) s S_in_progress),
                   u_currentStep := Some s\<rparr>) now w"
  from updateStepStatus_effect [OF assms(1), of s S_in_progress now]
  obtain db1 where 1: "updateStepStatus db i s S_in_progress now = Inr (db1, ?w1)"
    and g1: "getWorkflow db1 i = Some ?w1"
    and o1: "\<forall>j. j \<noteq> i \<longrightarrow> getWorkflow db1 j = getWorkflow db j"
    and l1: "workflow_logs db1 = workflow_logs db"
    by auto
  let ?dbL = "logWorkflowProgress db1 i s ''in_progress'' (Starting s)"
  have id1: "wf_id ?w1 = i" using assms(1) by (simp add: getWorkflow_id)
  have "executeStep env db i (Some s) force now = tryBlock env ?dbL i ?w1 s now"
    using assms 1 id1 by (auto simp: executeStep_def checkStepPrerequisites_def Let_def)
  moreover have "getWorkflow ?dbL i = Some ?w1" using g1 by simp
  moreover have "\<forall>j. j \<noteq> i \<longrightarrow> getWorkflow ?dbL j = getWorkflow db j" using o1 by simp
  moreover have "workflow_logs ?dbL = workflow_logs db @
                [\<lparr>log_workflowId = i, log_step = s, log_status = ''in_progress'',
                  log_message = Starting s, log_metadata = None\<rparr>]"
    using l1 by (simp add: logWorkflowProgress_def)
  ultimately show ?thesis by blast
qed

lemma executeStep_proceeds:
  assumes "executeStep env db i (Some s) force now = (db', r)"
    and "(\<exists>m. r = ExecutionError m) \<or> (\<exists>w' out. r = Succeeded w' out)"
  shows "\<exists>w. getWorkflow db i = Some w \<and> 1 \<le> s \<and> s \<le> 7 \<and>
           (force \<or> (canExecute (canExecuteStep w s)
                      \<and> readStatus (stepStatuses w) s \<noteq> Some S_completed))"
  using assms
  by (auto simp: executeStep_def checkStepPrerequisites_def Let_def
           split: if_splits option.splits)

section \<open>Facts about the start of a workflow\<close>

lemma startWorkflow_effect:
  assumes "getWorkflow db i = Some w"
  shows "\<exists>db'. startWorkflow db i fromStep now =
             Inr (db', applyUpdates
                (let updates0 = noUpdates\<lparr>u_status := Some W_in_progress, u_errorMessage := Some None\<rparr>;
                     updates1 = (if falsy (startedAt w)
                                 then updates0\<lparr>u_startedAt := Some now\<rparr> else updates0)
                 in case fromStep of
                      None \<Rightarrow> updates1
                    | Some k \<Rightarrow>
                        if k \<ge> 1 \<and> k \<le> 7
                        then updates1\<lparr>u_stepStatuses := Some (resetFrom (stepStatuses w) k),
                                      u_currentStep := Some k\<rparr>
                        else updates1) now w)
           \<and> getWorkflow db' i = Some (applyUpdates
                (let updates0 = noUpdates\<lparr>u_status := Some W_in_progress, u_errorMessage := Some None\<rparr>;
                     updates1 = (if falsy (startedAt w)
                                 then updates0\<lparr>u_startedAt := Some now\<rparr> else updates0)
                 in case fromStep of
                      None \<Rightarrow> updates1
                    | Some k \<Rightarrow>
                        if k \<ge> 1 \<and> k \<le> 7
                        then updates1\<lparr>u_stepStatuses := Some (resetFrom (stepStatuses w) k),
                                      u_currentStep := Some k\<rparr>
                        else updates1) now w)
           \<and> (\<forall>j. j \<noteq> i \<longrightarrow> getWorkflow db' j = getWorkflow db j)
           \<and> workflow_logs db' = workflow_logs db"
  using assms updateWorkflow_effect [OF assms] by (simp add: startWorkflow_def Let_def)

lemma startWorkflow_out_of_range:
  "k < 1 \<or> 7 < k \<Longrightarrow> startWorkflow db i (Some k) now = startWorkflow db i None now"
  by (cases "getWorkflow db i") (auto simp: startWorkflow_def Let_def)

lemma startWorkflow_plain:
  assumes "getWorkflow db i = Some w"
  shows "\<exists>db'. startWorkflow db i None now =
             Inr (db', applyUpdates
                (if falsy (startedAt w)
                 then noUpdates\<lparr>u_status := Some W_in_progress, u_errorMessage := Some None,
                        u_startedAt := Some now\<rparr>
                 else noUpdates\<lparr>u_status := Some W_in_progress, u_errorMessage := Some None\<rparr>)
                now w)
           \<and> getWorkflow db' i = Some (applyUpdates
                (if falsy (startedAt w)
                 then noUpdates\<lparr>u_status := Some W_in_progress, u_errorMessage := Some None,
                        u_startedAt := Some now\<rparr>
                 else noUpdates\<lparr>u_status := Some W_in_progress, u_errorMessage := Some None\<rparr>)
                now w)
           \<and> (\<forall>j. j \<noteq> i \<longrightarrow> getWorkflow db' j = getWorkflow db j)
           \<and> workflow_logs db' = workflow_logs db"
  using startWorkflow_effect [OF assms, of None now] by (simp add: Let_def)


lemma startWorkflow_from:
  assumes "getWorkflow db i = Some w" and "1 \<le> k" and "k \<le> 7"
  shows "\<exists>db'. startWorkflow db i (Some k) now =
             Inr (db', applyUpdates
                ((if falsy (startedAt w)
                  then noUpdates\<lparr>u_status := Some W_in_progress, u_errorMessage := Some None,
                         u_startedAt := Some now\<rparr>
                  else noUpdates\<lparr>u_status := Some W_in_progress, u_errorMessage := Some None\<rparr>)
                 \<lparr>u_stepStatuses := Some (resetFrom (stepStatuses w) k), u_currentStep := Some k\<rparr>)
                now w)
           \<and> getWorkflow db' i = Some (applyUpdates
                ((if falsy (startedAt w)
                  then noUpdates\<lparr>u_status := Some W_in_progress, u_errorMessage := Some None,
                         u_startedAt := Some now\<rparr>
                  else noUpdates\<lparr>u_status := Some W_in_progress, u_errorMessage := Some None\<rparr>)
                 \<lparr>u_stepStatuses := Some (resetFrom (stepStatuses w) k), u_currentStep := Some k\<rparr>)
                now w)
           \<and> (\<forall>j. j \<noteq> i \<longrightarrow> getWorkflow db' j = getWorkflow db j)
           \<and> workflow_logs db' = workflow_logs db"
  using startWorkflow_effect [OF assms(1), of "Some k" now] assms(2,3) by (simp add: Let_def)

section \<open>Facts about completion, creation and validation\<close>

lemma allComplete_iff:
  "list_all (\<lambda>x. x = S_completed \<or> x = S_skipped) (stepValues ss) \<longleftrightarrow>
     (\<forall>j. 1 \<le> j \<and> j \<le> 7 \<longrightarrow>
        readStatus ss j = Some S_completed \<or> readStatus ss j = Some S_skipped)"
proof
  assume a: "list_all (\<lambda>x. x = S_completed \<or> x = S_skipped) (stepValues ss)"
  show "\<forall>j. 1 \<le> j \<and> j \<le> 7 \<longrightarrow>
        readStatus ss j = Some S_completed \<or> readStatus ss j = Some S_skipped"
  proof (intro allI impI)
    fix j :: int
    assume "1 \<le> j \<and> j \<le> 7"
    then consider "j = 1" | "j = 2" | "j = 3" | "j = 4" | "j = 5" | "j = 6" | "j = 7"
      by arith
    then show "readStatus ss j = Some S_completed \<or> readStatus ss j = Some S_skipped"
      using a by cases (simp_all add: stepValues_def readStatus_def)
  qed
next
  assume a: "\<forall>j. 1 \<le> j \<and> j \<le> 7 \<longrightarrow>
        readStatus ss j = Some S_completed \<or> readStatus ss j = Some S_skipped"
  from a [rule_format, of 1] a [rule_format, of 2] a [rule_format, of 3] a [rule_format, of 4]
    a [rule_format, of 5] a [rule_format, of 6] a [rule_format, of 7]
  show "list_all (\<lambda>x. x = S_completed \<or> x = S_skipped) (stepValues ss)"
    by (simp add: stepValues_def readStatus_def)
qed

lemma create_rejects_missing:
  "b_videoSource body = None \<or> b_videoSource body = Some [] \<Longrightarrow>
   create db newId step0 body now = (db, ValidationError)"
  by (auto simp: create_def)

lemma create_accepts_nonempty:
  "b_videoSource body = Some v \<Longrightarrow> v \<noteq> [] \<Longrightarrow> getWorkflow db newId = None \<Longrightarrow>
   \<exists>db' w. create db newId step0 body now = (db', Created w) \<and> videoSource w = trim (trim v)"
  by (simp add: create_def createWorkflow_def Let_def insertedRow_def)

lemma executeStep_invalid_step:
  "stepParam = None \<or> (\<exists>s. stepParam = Some s \<and> (s < 1 \<or> 7 < s)) \<Longrightarrow>
   executeStep env db i stepParam force now = (db, InvalidStep)"
  by (auto simp: executeStep_def)

lemma getStep_invalid_step:
  "stepParam = None \<or> (\<exists>s. stepParam = Some s \<and> (s < 1 \<or> 7 < s)) \<Longrightarrow>
   getStep db i stepParam = (if getWorkflow db i = None then NotFound else InvalidStep)"
  by (auto simp: getStep_def split: option.splits)

section \<open>Preservation of the output invariant\<close>

lemma outputMap_outside: "k < 1 \<or> 7 < k \<Longrightarrow> outputMap w k = None"
  by (auto simp: outputMap_def)

lemma output_only_if_completed_iff:
  "output_only_if_completed w \<longleftrightarrow>
     (\<forall>k. outputMap w k \<noteq> None \<longrightarrow> readStatus (stepStatuses w) k = Some S_completed)"
proof
  assume a: "output_only_if_completed w"
  show "\<forall>k. outputMap w k \<noteq> None \<longrightarrow> readStatus (stepStatuses w) k = Some S_completed"
  proof (intro allI impI)
    fix k assume n: "outputMap w k \<noteq> None"
    with outputMap_outside [of k w] have "\<not> (k < 1 \<or> 7 < k)" by auto
    then consider "k = 1" | "k = 2" | "k = 3" | "k = 4" | "k = 5" | "k = 6" | "k = 7"
      by arith
    then show "readStatus (stepStatuses w) k = Some S_completed"
      using a n by cases (auto simp: output_only_if_completed_def)
  qed
next
  assume "\<forall>k. outputMap w k \<noteq> None \<longrightarrow> readStatus (stepStatuses w) k = Some S_completed"
  then show "output_only_if_completed w"
    by (auto simp: output_only_if_completed_def)
qed

lemma output_only_if_completed_frame:
  assumes "output_only_if_completed w" and "stepStatuses w' = stepStatuses w"
    and "\<forall>k. outputMap w' k = outputMap w k"
  shows "output_only_if_completed w'"
  using assms by (simp add: output_only_if_completed_iff)

lemma updateWorkflow_Inr_row:
  "updateWorkflow db i u now = Inr (db', w') \<Longrightarrow> \<exists>w. getWorkflow db i = Some w"
  by (cases "getWorkflow db i") (auto simp: updateWorkflow_def)

lemma applyUpdates_frame:
  assumes "u_stepStatuses u = None" and "u_step1Output u = None" and "u_step2Output u = None"
    and "u_step3Output u = None" and "u_step4Output u = None" and "u_step5Output u = None"
    and "u_step6Output u = None" and "u_step7Output u = None"
  shows "stepStatuses (applyUpdates u now w) = stepStatuses w"
    and "\<forall>k. outputMap (applyUpdates u now w) k = outputMap w k"
  using assms by (simp_all add: applyUpdates_def outputMap_def)

lemma invariant_updateWorkflow:
  assumes inv: "\<forall>j w. getWorkflow db j = Some w \<longrightarrow> output_only_if_completed w"
    and upd: "updateWorkflow db i u now = Inr (db', w')"
    and u: "u_stepStatuses u = None" "u_step1Output u = None" "u_step2Output u = None"
      "u_step3Output u = None" "u_step4Output u = None" "u_step5Output u = None"
      "u_step6Output u = None" "u_step7Output u = None"
  shows "\<forall>j w. getWorkflow db' j = Some w \<longrightarrow> output_only_if_completed w"
proof -
  from updateWorkflow_Inr_row [OF upd] obtain w0 where w0: "getWorkflow db i = Some w0" ..
  from updateWorkflow_effect [OF w0, of u now] upd
  have g: "getWorkflow db' i = Some (applyUpdates u now w0)"
    and o: "\<forall>j. j \<noteq> i \<longrightarrow> getWorkflow db' j = getWorkflow db j"
    by auto
  from inv w0 have "output_only_if_completed w0" by blast
  then have "output_only_if_completed (applyUpdates u now w0)"
    using applyUpdates_frame [OF u, of now w0] by (rule output_only_if_completed_frame)
  with g o inv show ?thesis by (metis option.inject)
qed

lemma find_snoc:
  "find P (xs @ [y]) = (case find P xs of None \<Rightarrow> (if P y then Some y else None) | Some x \<Rightarrow> Some x)"
  by (induction xs) auto

lemma invariant_create:
  assumes inv: "\<forall>j w. getWorkflow db j = Some w \<longrightarrow> output_only_if_completed w"
  shows "\<forall>j w. getWorkflow (fst (create db newId step0 body now)) j = Some w
           \<longrightarrow> output_only_if_completed w"
proof (cases "\<exists>v. b_videoSource body = Some v \<and> v \<noteq> [] \<and> getWorkflow db newId = None")
  case False
  then have "fst (create db newId step0 body now) = db"
    by (cases "getWorkflow db newId")
      (auto simp: create_def createWorkflow_def split: option.splits)
  with inv show ?thesis by simp
next
  case True
  then obtain v where v: "b_videoSource body = Some v" "v \<noteq> []" "getWorkflow db newId = None"
    by blast
  let ?row = "insertedRow newId step0 now
                \<lparr>o_videoSource = trim v, o_config = b_config body,
                 o_enhancePromptId = b_enhancePromptId body,
                 o_blogPromptId = b_blogPromptId body,
                 o_socialPromptId = b_socialPromptId body\<rparr>"
  have db': "fst (create db newId step0 body now) = db\<lparr>workflows := workflows db @ [?row]\<rparr>"
    using v by (simp add: create_def createWorkflow_def Let_def)
  have g: "getWorkflow (db\<lparr>workflows := workflows db @ [?row]\<rparr>) j =
             (if j = newId then Some ?row else getWorkflow db j)" for j
    using v(3) by (auto simp: getWorkflow_def find_snoc insertedRow_def split: option.splits)
  have "output_only_if_completed ?row"
    by (simp add: output_only_if_completed_def insertedRow_def outputMap_def)
  with inv show ?thesis unfolding db' by (simp add: g)
qed

lemma outputMap_outputUpdate:
  "outputMap (applyUpdates (outputUpdate s out) now w) k =
     (if k = s \<and> 1 \<le> s \<and> s \<le> 7 \<and> out \<noteq> None then out else outputMap w k)"
proof -
  consider "s < 1 \<or> s > 7" | "s = 1" | "s = 2" | "s = 3" | "s = 4" | "s = 5" | "s = 6" | "s = 7"
    by arith
  then show ?thesis
    by cases
      (auto simp: outputUpdate_def applyUpdates_def noUpdates_def outputMap_def overwrite_def
            split: option.splits)
qed

lemma invariant_executeStep:
  assumes inv: "\<forall>j w. getWorkflow db j = Some w \<longrightarrow> output_only_if_completed w"
  shows "\<forall>j w. getWorkflow (fst (executeStep env db i stepParam False now)) j = Some w
           \<longrightarrow> output_only_if_completed w"
proof (cases "\<exists>s w. stepParam = Some s \<and> 1 \<le> s \<and> s \<le> 7 \<and> getWorkflow db i = Some w
                  \<and> canExecute (canExecuteStep w s)
                  \<and> readStatus (stepStatuses w) s \<noteq> Some S_completed")
  case False
  then have "fst (executeStep env db i stepParam False now) = db"
    by (auto simp: executeStep_def checkStepPrerequisites_def Let_def split: option.splits)
  with inv show ?thesis by simp
next
  case True
  then obtain s w where p: "stepParam = Some s" "1 \<le> s" "s \<le> 7" "getWorkflow db i = Some w"
    and q: "canExecute (canExecuteStep w s)" "readStatus (stepStatuses w) s \<noteq> Some S_completed"
    by blast
  from inv p(4) have iw: "output_only_if_completed w" by blast
  with q(2) have none: "outputMap w s = None"
    by (auto simp: output_only_if_completed_iff)
  let ?w1 = "applyUpdates (noUpdates\<lparr>
                   u_stepStatuses := Some (writeStatus (stepStatuses w) s S_in_progress),
                   u_currentStep := Some s\<rparr>) now w"
  have go: "False \<or> (canExecute (canExecuteStep w s)
                      \<and> readStatus (stepStatuses w) s \<noteq> Some S_completed)"
    using q by simp
  from executeStep_running [OF p(4,2,3) go, of env now]
  obtain dbL where run: "executeStep env db i (Some s) False now = tryBlock env dbL i ?w1 s now"
    and gL: "getWorkflow dbL i = Some ?w1"
    and oL: "\<forall>j. j \<noteq> i \<longrightarrow> getWorkflow dbL j = getWorkflow db j"
    by blast
  have id1: "wf_id ?w1 = i" using p(4) by (simp add: getWorkflow_id)
  have f1: "stepStatuses ?w1 = writeStatus (stepStatuses w) s S_in_progress"
    "\<forall>k. outputMap ?w1 k = outputMap w k"
    by (simp_all add: applyUpdates_def noUpdates_def outputMap_def)
  let ?db' = "fst (executeStep env db i stepParam False now)"
  have "\<exists>w'. getWorkflow ?db' i = Some w' \<and> output_only_if_completed w'"
  proof -
    from tryBlock_cases [OF gL id1, of env s now]
    consider (fail) m db' where
        "tryBlock env dbL i ?w1 s now = (db', ExecutionError m)"
        "getWorkflow db' i =
               Some (applyUpdates (noUpdates\<lparr>u_status := Some W_error,
                                     u_errorMessage := Some (Some m)\<rparr>) now
                      (applyUpdates (noUpdates\<lparr>
                          u_stepStatuses := Some (writeStatus (stepStatuses ?w1) s S_error),
                          u_currentStep := Some (currentStep ?w1)\<rparr>) now ?w1))"
      | (ok) out wc db' w2 where
        "stepStatuses wc = stepStatuses ?w1" "\<forall>j. outputMap wc j = outputMap ?w1 j"
        "w2 = applyUpdates (noUpdates\<lparr>
                      u_stepStatuses := Some (writeStatus (stepStatuses wc) s S_completed),
                      u_currentStep := Some (currentStep wc)\<rparr>) now
                     (applyUpdates (outputUpdate s out) now wc)"
        "tryBlock env dbL i ?w1 s now =
                 (db', Succeeded
                    (if list_all (\<lambda>x. x = S_completed \<or> x = S_skipped) (stepValues (stepStatuses w2))
                     then applyUpdates (noUpdates\<lparr>u_status := Some W_completed,
                            u_completedAt := Some now\<rparr>) now w2
                     else w2) out)"
        "getWorkflow db' i =
                 Some (if list_all (\<lambda>x. x = S_completed \<or> x = S_skipped) (stepValues (stepStatuses w2))
                       then applyUpdates (noUpdates\<lparr>u_status := Some W_completed,
                              u_completedAt := Some now\<rparr>) now w2
                       else w2)"
      by blast
    then show ?thesis
    proof cases
      case fail
      let ?e = "applyUpdates (noUpdates\<lparr>u_status := Some W_error,
                                     u_errorMessage := Some (Some m)\<rparr>) now
                      (applyUpdates (noUpdates\<lparr>
                          u_stepStatuses := Some (writeStatus (stepStatuses ?w1) s S_error),
                          u_currentStep := Some (currentStep ?w1)\<rparr>) now ?w1)"
      have se: "stepStatuses ?e = writeStatus (writeStatus (stepStatuses w) s S_in_progress) s S_error"
        by (simp add: applyUpdates_def noUpdates_def)
      have oe: "\<forall>k. outputMap ?e k = outputMap w k"
        by (simp add: applyUpdates_def noUpdates_def outputMap_def)
      have "output_only_if_completed ?e"
        unfolding output_only_if_completed_iff
      proof (intro allI impI)
        fix k assume "outputMap ?e k \<noteq> None"
        with oe have n: "outputMap w k \<noteq> None" by simp
        with none have "k \<noteq> s" by auto
        moreover from iw n have "readStatus (stepStatuses w) k = Some S_completed"
          by (simp add: output_only_if_completed_iff)
        ultimately show "readStatus (stepStatuses ?e) k = Some S_completed"
          by (simp add: se readStatus_writeStatus)
      qed
      with fail run p(1) show ?thesis by simp
    next
      case ok
      define w' where "w' =
          (if list_all (\<lambda>x. x = S_completed \<or> x = S_skipped) (stepValues (stepStatuses w2))
           then applyUpdates (noUpdates\<lparr>u_status := Some W_completed,
                  u_completedAt := Some now\<rparr>) now w2
           else w2)"
      have s2: "stepStatuses w2 =
                  writeStatus (writeStatus (stepStatuses w) s S_in_progress) s S_completed"
        unfolding ok(3) using ok(1) f1(1)
        by (simp add: applyUpdates_def noUpdates_def)
      have o2: "outputMap w2 k = outputMap (applyUpdates (outputUpdate s out) now wc) k" for k
        unfolding ok(3) by (simp add: applyUpdates_def noUpdates_def outputMap_def)
      have sw: "stepStatuses w' = stepStatuses w2"
        unfolding w'_def by (simp add: applyUpdates_def noUpdates_def)
      have ow: "outputMap w' k = outputMap w2 k" for k
        unfolding w'_def by (simp add: applyUpdates_def noUpdates_def outputMap_def)
      have rs: "readStatus (stepStatuses w') k =
                  (if k = s then Some S_completed else readStatus (stepStatuses w) k)" for k
        using p(2,3) by (simp add: sw s2 readStatus_writeStatus)
      have ro: "k \<noteq> s \<Longrightarrow> outputMap w' k = outputMap w k" for k
        using ok(2) f1(2) by (simp add: ow o2 outputMap_outputUpdate)
      have "output_only_if_completed w'"
        unfolding output_only_if_completed_iff
      proof (intro allI impI)
        fix k assume a: "outputMap w' k \<noteq> None"
        show "readStatus (stepStatuses w') k = Some S_completed"
        proof (cases "k = s")
          case True
          then show ?thesis by (simp add: rs)
        next
          case False
          with a ro have "outputMap w k \<noteq> None" by simp
          with iw have "readStatus (stepStatuses w) k = Some S_completed"
            by (simp add: output_only_if_completed_iff)
          with False show ?thesis by (simp add: rs)
        qed
      qed
      moreover from ok(5) have "getWorkflow db' i = Some w'" by (simp add: w'_def)
      ultimately show ?thesis using ok(4) run p(1) by simp
    qed
  qed
  moreover have "\<forall>j. j \<noteq> i \<longrightarrow> getWorkflow ?db' j = getWorkflow db j"
  proof -
    from tryBlock_cases [OF gL id1, of env s now] run p(1)
    have "\<forall>j. j \<noteq> i \<longrightarrow> getWorkflow ?db' j = getWorkflow dbL j"
      by auto
    with oL show ?thesis by simp
  qed
  ultimately show ?thesis using inv by (metis option.inject)
qed

lemma invariant_reachable_unforced:
  "reachable_unforced db \<Longrightarrow>
   \<forall>j w. getWorkflow db j = Some w \<longrightarrow> output_only_if_completed w"
proof (induction rule: reachable_unforced.induct)
  case plain_init
  show ?case by (simp add: getWorkflow_def)
next
  case (plain_create db newId step0 body now)
  then show ?case by (intro invariant_create)
next
  case (plain_executeStep db env i stepParam now)
  then show ?case by (intro invariant_executeStep)
next
  case (plain_start db fromStep i now db' w)
  from plain_start.hyps(2) have e: "startWorkflow db i fromStep now = startWorkflow db i None now"
    by (auto simp: startWorkflow_out_of_range)
  from plain_start.hyps(3) obtain w0 where w0: "getWorkflow db i = Some w0"
    by (cases "getWorkflow db i") (auto simp: startWorkflow_def)
  let ?u = "if falsy (startedAt w0)
            then noUpdates\<lparr>u_status := Some W_in_progress, u_errorMessage := Some None,
                   u_startedAt := Some now\<rparr>
            else noUpdates\<lparr>u_status := Some W_in_progress, u_errorMessage := Some None\<rparr>"
  from plain_start.hyps(3) e w0 have "updateWorkflow db i ?u now = Inr (db', w)"
    by (simp add: startWorkflow_def Let_def)
  with plain_start.IH show ?case
    by (rule invariant_updateWorkflow) (simp_all add: noUpdates_def)
next
  case (plain_pause db i now db' w)
  from plain_pause.hyps(2) have "updateWorkflow db i (noUpdates\<lparr>u_status := Some W_paused\<rparr>) now
      = Inr (db', w)"
    by (cases "getWorkflow db i") (auto simp: pauseWorkflow_def)
  with plain_pause.IH show ?case
    by (rule invariant_updateWorkflow) (simp_all add: noUpdates_def)
next
  case (plain_complete db i now db' w)
  from plain_complete.IH plain_complete.hyps(2) [unfolded completeWorkflow_def] show ?case
    by (rule invariant_updateWorkflow) (simp_all add: noUpdates_def)
next
  case (plain_fail db i message now db' w)
  from plain_fail.IH plain_fail.hyps(2) [unfolded failWorkflow_def] show ?case
    by (rule invariant_updateWorkflow) (simp_all add: noUpdates_def)
qed

section \<open>Evaluation of the examples\<close>

lemmas eval_defs = executeStep_def checkStepPrerequisites_def canExecuteStep_def
  STEP_DEFINITIONS_def updateStepStatus_def updateWorkflow_def getWorkflow_def
  applyUpdates_def noUpdates_def writeStatus_def readStatus_def logWorkflowProgress_def
  tryBlock_def catchBlock_def dispatch_def executeStep1_def executeStep2_def executeStep3_def
  executeStep4_def executeStep5_def executeStep6_def executeStep7_def outputUpdate_def
  failWorkflow_def completeWorkflow_def stepValues_def falsy_def insertedRow_def
  emptyConfig_def orNull_def trim_def isSpace_def outputMap_def Let_def
  create_def createWorkflow_def startWorkflow_def

lemmas example_defs = ex_body_def ex_created_def ex_db_def ex_step1_def ex_step1_db_def
  ex_restarted_def ex_restarted_db_def ex_done_def ex_done_db_def env_throws_def
  env_returns_def

lemma getWorkflow_ex_db: "getWorkflow ex_db ''wf1'' = Some ex_created"
  by (simp add: getWorkflow_def ex_db_def ex_created_def)

lemma getWorkflow_ex_done_db: "getWorkflow ex_done_db ''wf1'' = Some ex_done"
  by (simp add: getWorkflow_def ex_done_db_def ex_done_def ex_created_def)

lemma getWorkflow_ex_step1_db: "getWorkflow ex_step1_db ''wf1'' = Some ex_step1"
  by (simp add: getWorkflow_def ex_step1_db_def ex_step1_def ex_created_def)

lemma reachable_unforced_ex_step1_db: "reachable_unforced ex_step1_db"
proof -
  have 0: "reachable_unforced \<lparr>workflows = [], workflow_logs = []\<rparr>" by (rule plain_init)
  have "fst (create \<lparr>workflows = [], workflow_logs = []\<rparr> ''wf1'' 0 ex_body ''t0'') = ex_db"
    by (simp add: eval_defs example_defs)
  with plain_create [OF 0, of "''wf1''" 0 ex_body "''t0''"]
  have 1: "reachable_unforced ex_db" by simp
  have "fst (executeStep env_returns ex_db ''wf1'' (Some 1) False ''t1'') = ex_step1_db"
    by (simp add: eval_defs example_defs)
  with plain_executeStep [OF 1, of env_returns "''wf1''" "Some 1" "''t1''"]
  show ?thesis by simp
qed

lemma reachable_ex_restarted_db: "reachable ex_restarted_db"
proof -
  have 0: "reachable \<lparr>workflows = [], workflow_logs = []\<rparr>" by (rule reach_init)
  have "fst (create \<lparr>workflows = [], workflow_logs = []\<rparr> ''wf1'' 0 ex_body ''t0'') = ex_db"
    by (simp add: eval_defs example_defs)
  with reach_create [OF 0, of "''wf1''" 0 ex_body "''t0''"]
  have 1: "reachable ex_db" by simp
  have "fst (executeStep env_returns ex_db ''wf1'' (Some 1) False ''t1'') = ex_step1_db"
    by (simp add: eval_defs example_defs)
  with reach_executeStep [OF 1, of env_returns "''wf1''" "Some 1" False "''t1''"]
  have 2: "reachable ex_step1_db" by simp
  have "startWorkflow ex_step1_db ''wf1'' (Some 1) ''t2'' = Inr (ex_restarted_db, ex_restarted)"
    by (simp add: eval_defs example_defs resetFrom.simps)
  with 2 show ?thesis by (rule reach_start)
qed


section \<open>The prerequisite check (C1)\<close>

text \<open>
  C1. For every workflow \<open>w\<close> and step number \<open>s\<close>, \<open>canExecuteStep w s\<close> reports
  executable if and only if \<open>s\<close> has a definition (it lies in 1..7) and every prerequisite
  of \<open>s\<close> in the fixed graph has status \<^verbatim>\<open>completed\<close> in the status map of \<open>w\<close>
  (\<^verbatim>\<open>skipped\<close> does not count); the missing list is exactly the unsatisfied prerequisites
  in increasing order; for a step number outside 1..7 the result is non-executable with
  an empty missing list.
\<close>

theorem canExecuteStep_prerequisites:
  "(canExecute (canExecuteStep w s) \<longleftrightarrow>
      1 \<le> s \<and> s \<le> 7 \<and>
      (\<forall>p \<in> prerequisite_graph s. readStatus (stepStatuses w) p = Some S_completed))
   \<and> missingPrerequisites (canExecuteStep w s) =
       sorted_list_of_set
         {p \<in> prerequisite_graph s. readStatus (stepStatuses w) p \<noteq> Some S_completed}
   \<and> (s < 1 \<or> 7 < s \<longrightarrow>
        canExecuteStep w s = \<lparr>canExecute = False, missingPrerequisites = []\<rparr>)"
proof -
  consider "s < 1 \<or> s > 7" | "s = 1" | "s = 2" | "s = 3" | "s = 4" | "s = 5" | "s = 6" | "s = 7"
    by arith
  then show ?thesis
    by cases
      (auto simp: canExecuteStep_cases prerequisite_graph_def select_one select_two)
qed

theorem canExecuteStep_prerequisites_witness:
  "readStatus (stepStatuses ex_done) 3 = Some S_completed
   \<and> readStatus (stepStatuses ex_done) 4 = Some S_completed
   \<and> canExecute (canExecuteStep ex_done 6)
   \<and> \<not> canExecute (canExecuteStep ex_step1 6)
   \<and> missingPrerequisites (canExecuteStep ex_step1 6) = [3, 4]
   \<and> canExecuteStep ex_done 8 = \<lparr>canExecute = False, missingPrerequisites = []\<rparr>"
proof -
  have h: "\<forall>p \<in> prerequisite_graph 6. readStatus (stepStatuses ex_done) p = Some S_completed"
    by (simp add: prerequisite_graph_def readStatus_def ex_done_def ex_created_def)
  have g: "{p \<in> prerequisite_graph 6. readStatus (stepStatuses ex_step1) p \<noteq> Some S_completed}
             = {3, 4}"
    by (auto simp: prerequisite_graph_def readStatus_def ex_step1_def ex_created_def)
  from canExecuteStep_prerequisites [of ex_done 6] h
  have 1: "canExecute (canExecuteStep ex_done 6)" by simp
  from canExecuteStep_prerequisites [of ex_step1 6] g
  have 2: "\<not> canExecute (canExecuteStep ex_step1 6)"
    "missingPrerequisites (canExecuteStep ex_step1 6) = [3, 4]"
    by auto
  from canExecuteStep_prerequisites [of ex_done 8]
  have 3: "canExecuteStep ex_done 8 = \<lparr>canExecute = False, missingPrerequisites = []\<rparr>"
    by simp
  have r: "readStatus (stepStatuses ex_done) 3 = Some S_completed"
    "readStatus (stepStatuses ex_done) 4 = Some S_completed"
    by (simp_all add: readStatus_def ex_done_def ex_created_def)
  from r 1 2 3 show ?thesis by simp
qed

section \<open>Forced execution (C2)\<close>

text \<open>
  C2. With \<^verbatim>\<open>force = true\<close>, \<open>executeStep\<close> never answers with the prerequisite error
  nor with the already-completed error, whatever the store, the identifier, the step
  parameter and the collaborators are: both checks are bypassed. Other failures remain
  possible.
\<close>

theorem executeStep_force_bypasses_checks:
  "snd (executeStep env db i stepParam True now) \<noteq> PrerequisiteError ms \<and>
   snd (executeStep env db i stepParam True now) \<noteq> AlreadyCompleted"
  by (simp add: executeStep_def Let_def tryBlock_response split: option.split sum.split prod.split)

theorem executeStep_force_bypasses_checks_witness:
  "\<not> canExecute (canExecuteStep ex_created 2)
   \<and> snd (executeStep env_returns ex_db ''wf1'' (Some 2) True ''t1'') \<noteq> PrerequisiteError [1]
   \<and> snd (executeStep env_returns ex_db ''wf1'' (Some 2) True ''t1'') \<noteq> AlreadyCompleted
   \<and> snd (executeStep env_returns ex_db ''wf1'' (Some 2) True ''t1'') =
        ExecutionError ''No video path available. Run step 1 first.''"
proof -
  have 1: "\<not> canExecute (canExecuteStep ex_created 2)"
    by (simp add: canExecuteStep_cases readStatus_def ex_created_def)
  have 2: "snd (executeStep env_returns ex_db ''wf1'' (Some 2) True ''t1'') =
        ExecutionError ''No video path available. Run step 1 first.''"
    by (simp add: eval_defs example_defs)
  from executeStep_force_bypasses_checks [of env_returns ex_db "''wf1''" "Some 2" "''t1''" "[1]"]
    1 2 show ?thesis by simp
qed

section \<open>A failing collaborator (C3)\<close>

text \<open>
  C3. When \<open>executeStep\<close> for step \<open>s\<close> answers with the execution error \<open>m\<close> (the
  collaborator bound to \<open>s\<close> threw \<open>m\<close>), the stored workflow has step \<open>s\<close> in status
  \<^verbatim>\<open>error\<close>, workflow status \<^verbatim>\<open>error\<close> and error message \<open>m\<close>; every other step
  status and every output slot is as it was; and the log has gained the entry of the
  start of the step and exactly one \<^verbatim>\<open>error\<close> entry for step \<open>s\<close> with message \<open>m\<close>.
\<close>

theorem executeStep_failure_recorded:
  assumes "executeStep env db i (Some s) force now = (db', ExecutionError m)"
  shows "\<exists>w w'. getWorkflow db i = Some w \<and> getWorkflow db' i = Some w'
           \<and> readStatus (stepStatuses w') s = Some S_error
           \<and> status w' = W_error \<and> errorMessage w' = Some m
           \<and> (\<forall>j. j \<noteq> s \<longrightarrow> readStatus (stepStatuses w') j = readStatus (stepStatuses w) j)
           \<and> (\<forall>j. outputMap w' j = outputMap w j)
           \<and> workflow_logs db' = workflow_logs db @
                [\<lparr>log_workflowId = i, log_step = s, log_status = ''in_progress'',
                  log_message = Starting s, log_metadata = None\<rparr>,
                 \<lparr>log_workflowId = i, log_step = s, log_status = ''error'',
                  log_message = Text m, log_metadata = None\<rparr>]
           \<and> (\<exists>dbL wL. dispatch env dbL wL s now = (dbL, Inl m))"
proof -
  from executeStep_proceeds [OF assms]
  obtain w where w: "getWorkflow db i = Some w" and s: "1 \<le> s" "s \<le> 7"
    and go: "force \<or> (canExecute (canExecuteStep w s)
                      \<and> readStatus (stepStatuses w) s \<noteq> Some S_completed)"
    by blast
  let ?w1 = "applyUpdates (noUpdates\<lparr>
                   u_stepStatuses := Some (writeStatus (stepStatuses w) s S_in_progress),
                   u_currentStep := Some s\<rparr>) now w"
  from executeStep_running [OF w s go, of env now]
  obtain dbL where run: "executeStep env db i (Some s) force now = tryBlock env dbL i ?w1 s now"
    and gL: "getWorkflow dbL i = Some ?w1"
    and lL: "workflow_logs dbL = workflow_logs db @
                [\<lparr>log_workflowId = i, log_step = s, log_status = ''in_progress'',
                  log_message = Starting s, log_metadata = None\<rparr>]"
    by blast
  have id1: "wf_id ?w1 = i" using w by (simp add: getWorkflow_id)
  let ?w' = "applyUpdates (noUpdates\<lparr>u_status := Some W_error,
                                     u_errorMessage := Some (Some m)\<rparr>) now
                      (applyUpdates (noUpdates\<lparr>
                          u_stepStatuses := Some (writeStatus (stepStatuses ?w1) s S_error),
                          u_currentStep := Some (currentStep ?w1)\<rparr>) now ?w1)"
  from tryBlock_cases [OF gL id1, of env s now] run assms
  have g': "getWorkflow db' i = Some ?w'"
    and l': "workflow_logs db' = workflow_logs dbL @
                [\<lparr>log_workflowId = i, log_step = s, log_status = ''error'',
                  log_message = Text m, log_metadata = None\<rparr>]"
    and d: "dispatch env dbL ?w1 s now = (dbL, Inl m)"
    by auto
  from d have thrown: "\<exists>dbL wL. dispatch env dbL wL s now = (dbL, Inl m)" by blast
  have st: "stepStatuses ?w' = writeStatus (writeStatus (stepStatuses w) s S_in_progress) s S_error"
    by (simp add: applyUpdates_def noUpdates_def)
  have "readStatus (stepStatuses ?w') s = Some S_error"
    using s by (simp add: st readStatus_writeStatus)
  moreover have "status ?w' = W_error" "errorMessage ?w' = Some m"
    by (simp_all add: applyUpdates_def noUpdates_def)
  moreover have "\<forall>j. j \<noteq> s \<longrightarrow> readStatus (stepStatuses ?w') j = readStatus (stepStatuses w) j"
    by (simp add: st readStatus_writeStatus)
  moreover have "\<forall>j. outputMap ?w' j = outputMap w j"
    by (simp add: applyUpdates_def noUpdates_def outputMap_def)
  ultimately show ?thesis using w g' l' lL thrown by simp
qed

theorem executeStep_failure_recorded_witness:
  "snd (executeStep env_throws ex_db ''wf1'' (Some 1) False ''t1'') =
     ExecutionError ''download failed''
   \<and> (\<exists>w'. getWorkflow (fst (executeStep env_throws ex_db ''wf1'' (Some 1) False ''t1'')) ''wf1''
              = Some w'
          \<and> readStatus (stepStatuses w') 1 = Some S_error
          \<and> status w' = W_error \<and> errorMessage w' = Some ''download failed''
          \<and> readStatus (stepStatuses w') 2 = Some S_pending
          \<and> outputMap w' 1 = None)"
proof -
  have h: "snd (executeStep env_throws ex_db ''wf1'' (Some 1) False ''t1'') =
     ExecutionError ''download failed''"
    by (simp add: eval_defs example_defs)
  then have e: "executeStep env_throws ex_db ''wf1'' (Some 1) False ''t1'' =
     (fst (executeStep env_throws ex_db ''wf1'' (Some 1) False ''t1''),
      ExecutionError ''download failed'')"
    by (simp add: prod_eq_iff)
  have r: "readStatus (stepStatuses ex_created) 2 = Some S_pending"
    "outputMap ex_created 1 = None"
    by (simp_all add: readStatus_def outputMap_def ex_created_def)
  from executeStep_failure_recorded [OF e] getWorkflow_ex_db r h
  show ?thesis by auto
qed

section \<open>Promotion to completed (C4)\<close>

text \<open>
  C4, as stated, asks that \<^verbatim>\<open>completedAt\<close> is set exactly once and that a later
  re-completion does not change it. \<open>completeWorkflow\<close> writes \<^verbatim>\<open>completedAt\<close>
  whenever it runs: on a workflow that was promoted at \<open>t7\<close>, a forced re-execution of
  step 7 at \<open>t9\<close> succeeds, promotes again and stores \<open>t9\<close>.
\<close>

theorem completedAt_overwritten_counterexample:
  "getWorkflow ex_done_db ''wf1'' = Some ex_done
   \<and> status ex_done = W_completed \<and> completedAt ex_done = Some ''t7''
   \<and> snd (executeStep env_returns ex_done_db ''wf1'' (Some 7) True ''t9'') =
        Succeeded (ex_done\<lparr>updatedAt := ''t9'', completedAt := Some ''t9''\<rparr>)
          (Some (Payload ''result''))
   \<and> getWorkflow (fst (executeStep env_returns ex_done_db ''wf1'' (Some 7) True ''t9'')) ''wf1'' =
        Some (ex_done\<lparr>updatedAt := ''t9'', completedAt := Some ''t9''\<rparr>)
   \<and> completedAt (ex_done\<lparr>updatedAt := ''t9'', completedAt := Some ''t9''\<rparr>) \<noteq> completedAt ex_done"
  by (simp add: eval_defs example_defs)

text \<open>
  C4, amended. When \<open>executeStep\<close> for step \<open>s\<close> succeeds, the stored workflow has
  step \<open>s\<close> \<^verbatim>\<open>completed\<close> and every other step status as before. If then every one of
  the seven statuses is \<^verbatim>\<open>completed\<close> or \<^verbatim>\<open>skipped\<close>, the workflow status is
  \<^verbatim>\<open>completed\<close> and \<^verbatim>\<open>completedAt\<close> is the time of this execution (each promotion
  writes it anew); if some step is neither, the workflow is not promoted: its status and
  \<^verbatim>\<open>completedAt\<close> are as before.
\<close>

theorem executeStep_success_promotes:
  assumes "executeStep env db i (Some s) force now = (db', Succeeded w' out)"
  shows "\<exists>w. getWorkflow db i = Some w \<and> getWorkflow db' i = Some w'
           \<and> (\<forall>j. readStatus (stepStatuses w') j =
                    (if j = s then Some S_completed else readStatus (stepStatuses w) j))
           \<and> (if \<forall>j. 1 \<le> j \<and> j \<le> 7 \<longrightarrow>
                     readStatus (stepStatuses w') j = Some S_completed
                     \<or> readStatus (stepStatuses w') j = Some S_skipped
               then status w' = W_completed \<and> completedAt w' = Some now
               else status w' = status w \<and> completedAt w' = completedAt w)"
proof -
  from executeStep_proceeds [OF assms]
  obtain w where w: "getWorkflow db i = Some w" and s: "1 \<le> s" "s \<le> 7"
    and go: "force \<or> (canExecute (canExecuteStep w s)
                      \<and> readStatus (stepStatuses w) s \<noteq> Some S_completed)"
    by blast
  let ?w1 = "applyUpdates (noUpdates\<lparr>
                   u_stepStatuses := Some (writeStatus (stepStatuses w) s S_in_progress),
                   u_currentStep := Some s\<rparr>) now w"
  from executeStep_running [OF w s go, of env now]
  obtain dbL where run: "executeStep env db i (Some s) force now = tryBlock env dbL i ?w1 s now"
    and gL: "getWorkflow dbL i = Some ?w1"
    by blast
  have id1: "wf_id ?w1 = i" using w by (simp add: getWorkflow_id)
  have f1: "stepStatuses ?w1 = writeStatus (stepStatuses w) s S_in_progress"
    "status ?w1 = status w" "completedAt ?w1 = completedAt w"
    by (simp_all add: applyUpdates_def noUpdates_def)
  from tryBlock_cases [OF gL id1, of env s now] run assms
  obtain wc w2 where fr: "stepStatuses wc = stepStatuses ?w1" "status wc = status ?w1"
      "completedAt wc = completedAt ?w1"
    and w2: "w2 = applyUpdates (noUpdates\<lparr>
                      u_stepStatuses := Some (writeStatus (stepStatuses wc) s S_completed),
                      u_currentStep := Some (currentStep wc)\<rparr>) now
                     (applyUpdates (outputUpdate s out) now wc)"
    and w': "w' = (if list_all (\<lambda>x. x = S_completed \<or> x = S_skipped) (stepValues (stepStatuses w2))
                     then applyUpdates (noUpdates\<lparr>u_status := Some W_completed,
                            u_completedAt := Some now\<rparr>) now w2
                     else w2)"
    and g': "getWorkflow db' i = Some w'"
    by auto
  have s2: "stepStatuses w2 = writeStatus (writeStatus (stepStatuses w) s S_in_progress) s S_completed"
    "status w2 = status w" "completedAt w2 = completedAt w"
    unfolding w2 using fr f1
    by (simp_all add: applyUpdates_def noUpdates_def outputUpdate_def)
  have st': "stepStatuses w' = stepStatuses w2"
    unfolding w' by (simp add: applyUpdates_def noUpdates_def)
  have rd: "\<forall>j. readStatus (stepStatuses w') j =
                    (if j = s then Some S_completed else readStatus (stepStatuses w) j)"
    using s by (simp add: st' s2 readStatus_writeStatus)
  have pr: "(if \<forall>j. 1 \<le> j \<and> j \<le> 7 \<longrightarrow>
                     readStatus (stepStatuses w') j = Some S_completed
                     \<or> readStatus (stepStatuses w') j = Some S_skipped
               then status w' = W_completed \<and> completedAt w' = Some now
               else status w' = status w \<and> completedAt w' = completedAt w)"
  proof (cases "list_all (\<lambda>x. x = S_completed \<or> x = S_skipped) (stepValues (stepStatuses w2))")
    case True
    then have "w' = applyUpdates (noUpdates\<lparr>u_status := Some W_completed,
                            u_completedAt := Some now\<rparr>) now w2"
      using w' by simp
    then have "status w' = W_completed \<and> completedAt w' = Some now"
      by (simp add: applyUpdates_def noUpdates_def)
    with True show ?thesis unfolding st' allComplete_iff [symmetric] by simp
  next
    case False
    then have "w' = w2" using w' by simp
    with s2 have "status w' = status w \<and> completedAt w' = completedAt w" by simp
    with False show ?thesis unfolding st' allComplete_iff [symmetric] by simp
  qed
  from w g' rd pr show ?thesis by blast
qed

theorem executeStep_success_promotes_witness:
  "snd (executeStep env_returns ex_db ''wf1'' (Some 1) False ''t1'') =
      Succeeded ex_step1 (Some (Payload ''download''))
   \<and> getWorkflow (fst (executeStep env_returns ex_db ''wf1'' (Some 1) False ''t1'')) ''wf1'' =
        Some ex_step1
   \<and> readStatus (stepStatuses ex_step1) 1 = Some S_completed
   \<and> readStatus (stepStatuses ex_step1) 2 = Some S_pending
   \<and> status ex_step1 = W_created \<and> completedAt ex_step1 = None"
proof -
  have hs: "snd (executeStep env_returns ex_db ''wf1'' (Some 1) False ''t1'') =
      Succeeded ex_step1 (Some (Payload ''download''))"
    by (simp add: eval_defs example_defs)
  then have h: "executeStep env_returns ex_db ''wf1'' (Some 1) False ''t1'' =
      (fst (executeStep env_returns ex_db ''wf1'' (Some 1) False ''t1''),
       Succeeded ex_step1 (Some (Payload ''download'')))"
    by (simp add: prod_eq_iff)
  have r: "readStatus (stepStatuses ex_created) 2 = Some S_pending"
    "status ex_created = W_created" "completedAt ex_created = None"
    by (simp_all add: readStatus_def ex_created_def)
  from executeStep_success_promotes [OF h] getWorkflow_ex_db
  have 1: "getWorkflow (fst (executeStep env_returns ex_db ''wf1'' (Some 1) False ''t1'')) ''wf1'' =
        Some ex_step1"
    and 2: "\<forall>j. readStatus (stepStatuses ex_step1) j =
                    (if j = 1 then Some S_completed else readStatus (stepStatuses ex_created) j)"
    and 3: "(if \<forall>j. 1 \<le> j \<and> j \<le> 7 \<longrightarrow>
                     readStatus (stepStatuses ex_step1) j = Some S_completed
                     \<or> readStatus (stepStatuses ex_step1) j = Some S_skipped
               then status ex_step1 = W_completed \<and> completedAt ex_step1 = Some ''t1''
               else status ex_step1 = status ex_created \<and> completedAt ex_step1 = completedAt ex_created)"
    by auto
  from 2 r have 4: "readStatus (stepStatuses ex_step1) 1 = Some S_completed"
    "readStatus (stepStatuses ex_step1) 2 = Some S_pending" by simp_all
  then have "\<not> (\<forall>j. 1 \<le> j \<and> j \<le> 7 \<longrightarrow>
                     readStatus (stepStatuses ex_step1) j = Some S_completed
                     \<or> readStatus (stepStatuses ex_step1) j = Some S_skipped)"
    by (auto intro: exI [of _ 2])
  with 3 r have "status ex_step1 = W_created \<and> completedAt ex_step1 = None" by simp
  with hs 1 4 show ?thesis by simp
qed

section \<open>Restart from a step (C5)\<close>

text \<open>
  C5. For a stored workflow and \<open>k\<close> in 1..7, \<open>startWorkflow\<close> with \<^verbatim>\<open>fromStep = k\<close>
  succeeds and sets the workflow status to \<^verbatim>\<open>in_progress\<close>, the statuses of the steps
  \<open>k\<close> to 7 to \<^verbatim>\<open>pending\<close> and the current step to \<open>k\<close>; it leaves the statuses of the
  steps below \<open>k\<close> and all seven output slots as they were; \<^verbatim>\<open>startedAt\<close> becomes the
  current time only if it was not set.
\<close>

theorem startWorkflow_fromStep_resets:
  assumes "getWorkflow db i = Some w" and "1 \<le> k" and "k \<le> 7"
  shows "\<exists>db' w'. startWorkflow db i (Some k) now = Inr (db', w')
           \<and> getWorkflow db' i = Some w'
           \<and> status w' = W_in_progress
           \<and> (\<forall>j. k \<le> j \<and> j \<le> 7 \<longrightarrow> readStatus (stepStatuses w') j = Some S_pending)
           \<and> (\<forall>j. j < k \<longrightarrow> readStatus (stepStatuses w') j = readStatus (stepStatuses w) j)
           \<and> (\<forall>j. outputMap w' j = outputMap w j)
           \<and> currentStep w' = k
           \<and> startedAt w' = (if falsy (startedAt w) then Some now else startedAt w)"
proof -
  let ?u = "(if falsy (startedAt w)
             then noUpdates\<lparr>u_status := Some W_in_progress, u_errorMessage := Some None,
                    u_startedAt := Some now\<rparr>
             else noUpdates\<lparr>u_status := Some W_in_progress, u_errorMessage := Some None\<rparr>)
            \<lparr>u_stepStatuses := Some (resetFrom (stepStatuses w) k), u_currentStep := Some k\<rparr>"
  let ?w' = "applyUpdates ?u now w"
  from startWorkflow_effect [OF assms(1), of "Some k" now] assms(2,3)
  obtain db' where 1: "startWorkflow db i (Some k) now = Inr (db', ?w')"
    and 2: "getWorkflow db' i = Some ?w'"
    by (auto simp: Let_def)
  have st: "stepStatuses ?w' = resetFrom (stepStatuses w) k"
    by (simp add: applyUpdates_def noUpdates_def)
  have "status ?w' = W_in_progress" "currentStep ?w' = k"
    "startedAt ?w' = (if falsy (startedAt w) then Some now else startedAt w)"
    by (simp_all add: applyUpdates_def noUpdates_def)
  moreover have "\<forall>j. k \<le> j \<and> j \<le> 7 \<longrightarrow> readStatus (stepStatuses ?w') j = Some S_pending"
    using assms(2) by (simp add: st readStatus_resetFrom)
  moreover have "\<forall>j. j < k \<longrightarrow> readStatus (stepStatuses ?w') j = readStatus (stepStatuses w) j"
    by (simp add: st readStatus_resetFrom)
  moreover have "\<forall>j. outputMap ?w' j = outputMap w j"
    by (simp add: applyUpdates_def noUpdates_def outputMap_def)
  ultimately show ?thesis using 1 2 by blast
qed

theorem startWorkflow_fromStep_resets_witness:
  "getWorkflow ex_done_db ''wf1'' = Some ex_done
   \<and> (\<exists>db' w'. startWorkflow ex_done_db ''wf1'' (Some 3) ''t8'' = Inr (db', w')
          \<and> status w' = W_in_progress
          \<and> readStatus (stepStatuses w') 3 = Some S_pending
          \<and> readStatus (stepStatuses w') 7 = Some S_pending
          \<and> readStatus (stepStatuses w') 2 = Some S_completed
          \<and> outputMap w' 3 = Some (Payload ''result'')
          \<and> currentStep w' = 3 \<and> startedAt w' = Some ''t8'')"
proof -
  have r: "readStatus (stepStatuses ex_done) 2 = Some S_completed"
    "outputMap ex_done 3 = Some (Payload ''result'')" "falsy (startedAt ex_done)"
    by (simp_all add: readStatus_def outputMap_def falsy_def ex_done_def ex_created_def)
  from startWorkflow_fromStep_resets [OF getWorkflow_ex_done_db, of 3 "''t8''"]
  obtain db' w' where "startWorkflow ex_done_db ''wf1'' (Some 3) ''t8'' = Inr (db', w')"
    and "status w' = W_in_progress"
    and "\<forall>j. 3 \<le> j \<and> j \<le> 7 \<longrightarrow> readStatus (stepStatuses w') j = Some S_pending"
    and "\<forall>j. j < 3 \<longrightarrow> readStatus (stepStatuses w') j = readStatus (stepStatuses ex_done) j"
    and "\<forall>j. outputMap w' j = outputMap ex_done j"
    and "currentStep w' = 3"
    and "startedAt w' = (if falsy (startedAt ex_done) then Some ''t8'' else startedAt ex_done)"
    by auto
  with r getWorkflow_ex_done_db show ?thesis by auto
qed

section \<open>Outputs and step statuses (C6)\<close>

text \<open>
  C6, as stated, asks that in every reachable store an output slot is non-null only if
  the status of its step is \<^verbatim>\<open>completed\<close>. No operation clears an output slot:
  after creation, a successful step 1 and \<^verbatim>\<open>start\<close> with \<^verbatim>\<open>fromStep = 1\<close>, step 1 is
  \<^verbatim>\<open>pending\<close> and its output is still there.
\<close>

theorem output_invariant_counterexample:
  "reachable ex_restarted_db \<and> getWorkflow ex_restarted_db ''wf1'' = Some ex_restarted
   \<and> outputMap ex_restarted 1 = Some (Payload ''download'')
   \<and> readStatus (stepStatuses ex_restarted) 1 = Some S_pending
   \<and> \<not> output_only_if_completed ex_restarted"
  using reachable_ex_restarted_db
  by (simp add: getWorkflow_def outputMap_def readStatus_def output_only_if_completed_def
        example_defs)

text \<open>
  C6, amended. In every store reachable through creation, execution of steps without
  \<^verbatim>\<open>force\<close>, \<^verbatim>\<open>start\<close> without a \<^verbatim>\<open>fromStep\<close> in 1..7, pause, completion and
  failure, an output slot of a workflow is non-null only if the status of its step is
  \<^verbatim>\<open>completed\<close>.
\<close>

theorem output_only_if_completed_unforced:
  assumes "reachable_unforced db" and "getWorkflow db i = Some w"
    and "outputMap w k \<noteq> None"
  shows "readStatus (stepStatuses w) k = Some S_completed"
  using invariant_reachable_unforced [OF assms(1)] assms(2,3)
  by (auto simp: output_only_if_completed_iff)

theorem output_only_if_completed_unforced_witness:
  "reachable_unforced ex_step1_db \<and> getWorkflow ex_step1_db ''wf1'' = Some ex_step1
   \<and> outputMap ex_step1 1 = Some (Payload ''download'')
   \<and> readStatus (stepStatuses ex_step1) 1 = Some S_completed"
proof -
  have o: "outputMap ex_step1 1 = Some (Payload ''download'')"
    by (simp add: outputMap_def ex_step1_def ex_created_def)
  then have "outputMap ex_step1 1 \<noteq> None" by simp
  from output_only_if_completed_unforced [OF reachable_unforced_ex_step1_db getWorkflow_ex_step1_db this]
    reachable_unforced_ex_step1_db getWorkflow_ex_step1_db o
  show ?thesis by simp
qed

section \<open>Validation of the video source (C7)\<close>

text \<open>
  C7 asks that creation is rejected for a missing, empty or white-space-only video
  source. The route tests the string before it trims it: the source of three spaces
  passes the test, is trimmed, and a workflow with the empty video source is stored and
  returned. (A missing and an empty source are rejected with the store unchanged, see
  \<open>create_rejects_missing\<close>.)
\<close>

theorem create_accepts_whitespace_source:
  "create \<lparr>workflows = [], workflow_logs = []\<rparr> ''wf1'' 0
      (ex_body\<lparr>b_videoSource := Some ''   ''\<rparr>) ''t0'' =
     (\<lparr>workflows = [ex_created\<lparr>videoSource := ''''\<rparr>], workflow_logs = []\<rparr>,
      Created (ex_created\<lparr>videoSource := ''''\<rparr>))"
  by (simp add: eval_defs example_defs)

section \<open>Validation of the step number (C8)\<close>

text \<open>
  C8 asks that both step routes reject a step number outside 1..7 before the store is
  read. The execute route does (see \<open>executeStep_invalid_step\<close>: the answer does not
  depend on the store). The route that reports a step reads the workflow first: for an
  identifier without a workflow, steps 0 and 8 are answered with not-found, and the
  invalid step is reported only when the workflow exists.
\<close>

theorem getStep_loads_before_validation:
  "getStep \<lparr>workflows = [], workflow_logs = []\<rparr> ''wf1'' (Some 0) = NotFound
   \<and> getStep \<lparr>workflows = [], workflow_logs = []\<rparr> ''wf1'' (Some 8) = NotFound
   \<and> getStep ex_db ''wf1'' (Some 0) = InvalidStep
   \<and> snd (executeStep env_returns \<lparr>workflows = [], workflow_logs = []\<rparr> ''wf1'' (Some 0) False ''t1'')
       = InvalidStep"
  by (simp add: getStep_def eval_defs example_defs)

section \<open>A blocked step (C9)\<close>

text \<open>
  C9. When \<open>executeStep\<close> is called without \<^verbatim>\<open>force\<close> for a step in 1..7 of a stored
  workflow and some prerequisite of the step is not \<^verbatim>\<open>completed\<close>, the answer is the
  prerequisite error with the missing step numbers, and the store that is returned is
  the store that was given: no workflow, status, output or log entry has changed.
\<close>

theorem executeStep_blocked_no_mutation:
  assumes "getWorkflow db i = Some w" and "1 \<le> s" and "s \<le> 7"
    and "\<not> canExecute (canExecuteStep w s)"
  shows "executeStep env db i (Some s) False now =
           (db, PrerequisiteError (missingPrerequisites (canExecuteStep w s)))"
  using assms by (simp add: executeStep_def checkStepPrerequisites_def Let_def)

theorem executeStep_blocked_no_mutation_witness:
  "getWorkflow ex_db ''wf1'' = Some ex_created
   \<and> \<not> canExecute (canExecuteStep ex_created 2)
   \<and> executeStep env_returns ex_db ''wf1'' (Some 2) False ''t1'' = (ex_db, PrerequisiteError [1])"
proof -
  have c: "\<not> canExecute (canExecuteStep ex_created 2)"
    "missingPrerequisites (canExecuteStep ex_created 2) = [1]"
    by (simp_all add: canExecuteStep_cases readStatus_def ex_created_def)
  from executeStep_blocked_no_mutation [OF getWorkflow_ex_db _ _ c(1), of env_returns "''t1''"]
    c getWorkflow_ex_db
  show ?thesis by simp
qed

section \<open>Start clears the error message (C10)\<close>

text \<open>
  C10. For a stored workflow, every call of \<open>startWorkflow\<close>, with or without
  \<^verbatim>\<open>fromStep\<close>, succeeds and leaves the error message null and the status
  \<^verbatim>\<open>in_progress\<close>; when \<^verbatim>\<open>fromStep\<close> is given but lies outside 1..7, the call behaves
  as the call without \<^verbatim>\<open>fromStep\<close>: no step status is reset and the current step is
  kept.
\<close>

theorem startWorkflow_clears_error:
  assumes "getWorkflow db i = Some w"
  shows "\<exists>db' w'. startWorkflow db i fromStep now = Inr (db', w')
           \<and> getWorkflow db' i = Some w'
           \<and> errorMessage w' = None \<and> status w' = W_in_progress
           \<and> ((\<exists>k. fromStep = Some k \<and> (k < 1 \<or> 7 < k)) \<longrightarrow>
                startWorkflow db i fromStep now = startWorkflow db i None now
                \<and> stepStatuses w' = stepStatuses w \<and> currentStep w' = currentStep w)"
proof -
  let ?u = "if falsy (startedAt w)
            then noUpdates\<lparr>u_status := Some W_in_progress, u_errorMessage := Some None,
                   u_startedAt := Some now\<rparr>
            else noUpdates\<lparr>u_status := Some W_in_progress, u_errorMessage := Some None\<rparr>"
  from startWorkflow_plain [OF assms, of now]
  obtain dbn where n: "startWorkflow db i None now = Inr (dbn, applyUpdates ?u now w)"
    and gn: "getWorkflow dbn i = Some (applyUpdates ?u now w)"
    by blast
  have fn: "errorMessage (applyUpdates ?u now w) = None"
    "status (applyUpdates ?u now w) = W_in_progress"
    "stepStatuses (applyUpdates ?u now w) = stepStatuses w"
    "currentStep (applyUpdates ?u now w) = currentStep w"
    by (simp_all add: applyUpdates_def noUpdates_def)
  show ?thesis
  proof (cases "\<exists>k. fromStep = Some k \<and> 1 \<le> k \<and> k \<le> 7")
    case True
    then obtain k where k: "fromStep = Some k" "1 \<le> k" "k \<le> 7" by blast
    let ?v = "?u\<lparr>u_stepStatuses := Some (resetFrom (stepStatuses w) k), u_currentStep := Some k\<rparr>"
    from startWorkflow_from [OF assms k(2,3), of now]
    obtain db' where 1: "startWorkflow db i (Some k) now = Inr (db', applyUpdates ?v now w)"
      and 2: "getWorkflow db' i = Some (applyUpdates ?v now w)"
      by blast
    have "errorMessage (applyUpdates ?v now w) = None"
      "status (applyUpdates ?v now w) = W_in_progress"
      by (simp_all add: applyUpdates_def noUpdates_def)
    with 1 2 k show ?thesis by auto
  next
    case False
    then have "startWorkflow db i fromStep now = startWorkflow db i None now"
      by (cases fromStep) (auto simp: startWorkflow_out_of_range)
    with n gn fn show ?thesis by auto
  qed
qed

theorem startWorkflow_clears_error_witness:
  "getWorkflow ex_db ''wf1'' = Some ex_created
   \<and> (\<exists>db' w'. startWorkflow ex_db ''wf1'' (Some 9) ''t1'' = Inr (db', w')
          \<and> errorMessage w' = None \<and> status w' = W_in_progress
          \<and> startWorkflow ex_db ''wf1'' (Some 9) ''t1'' = startWorkflow ex_db ''wf1'' None ''t1''
          \<and> stepStatuses w' = stepStatuses ex_created)"
  using startWorkflow_clears_error [OF getWorkflow_ex_db, of "Some 9" "''t1''"]
    getWorkflow_ex_db by auto

end
